theory Spec2Isabelle
  imports Complex_Main "HOL-Library.Log_Nat"
begin

section \<open>The client store of aurachain-ui (src/aurachain-ui/src/store/uiStore.ts)\<close>

text \<open>
  The store is a zustand store: a state object, and actions that replace parts of it
  through \<open>set\<close>. The actions are asynchronous: they read the system clock, call the
  remote API and pause on timers. The model makes each of these explicit.
  \<^item> The state object is the record \<open>UIState\<close>; every \<open>set\<close> publishes a snapshot,
    kept in order in \<open>history\<close>.
  \<^item> The system clock is a sequence of readings: \<open>clock w i\<close> is what the i-th read
    returns. Nothing is assumed about the readings.
  \<^item> The remote API (\<open>../services/api\<close>, absent from the sources) is a parameter:
    three functions from the arguments of a call to its outcome, a rejection
    (\<open>Inl\<close>) or a response (\<open>Inr\<close>). Every call is logged in \<open>calls\<close>, and every
    \<open>console.error\<close> in \<open>console\<close>.
  \<^item> An exception that leaves an action rejects the action's promise; no caller of
    the store handles it. The model keeps its name in \<open>unhandled\<close> and the action
    ends there.
  \<^item> One action runs from its start to its end without another action of the store
    running in between; the pauses of \<open>sendMessage\<close> change nothing but the time.
  \<^item> Strings are lists of 8-bit characters; a character beyond ASCII is its UTF-8
    bytes.
\<close>

subsection \<open>Data (MessageBubble.tsx, uiStore.ts)\<close>

datatype sender = User | AI

text \<open>The \<open>type\<close> tag of a message: \<open>'text' | 'analysis' | 'agent_result'\<close>.\<close>

datatype msg_type = Text | Analysis | Agent_result

text \<open>
  The status strings. A message's status is \<open>'processing' | 'completed' | 'failed'\<close>;
  the agent status map also admits \<open>'queued'\<close>.
\<close>

datatype status = Queued | Processing | Completed | Failed

type_synonym json = string

text \<open>The optional \<open>metadata\<close> bag of a message; an absent property is \<open>None\<close>.\<close>

record metadata =
  md_agents :: "string list option"
  md_progress :: "int option"
  md_data :: "json option"
  md_agent :: "string option"
  md_summary :: "string option"
  md_success :: "bool option"
  md_error :: "string option"
  md_displayText :: "string option"

definition no_metadata :: metadata where
  "no_metadata = \<lparr>md_agents = None, md_progress = None, md_data = None, md_agent = None,
     md_summary = None, md_success = None, md_error = None, md_displayText = None\<rparr>"

record message =
  msg_id :: string
  sender :: sender
  msg_text :: string
  timestamp :: string
  msg_type :: msg_type
  status :: "status option"
  metadata :: "metadata option"

record DatasetContext =
  dataset_id :: string
  filename :: string
  shape :: "nat \<times> nat"
  columns :: "string list"

text \<open>
  Modelled from the spec: the type \<open>OrchestrationPlan\<close> is declared in
  \<open>../services/api\<close>, absent from the sources. The spec gives it a reasoning text and
  the ordered sequence of agent names; the store reads exactly these two properties.
\<close>

record OrchestrationPlan =
  reasoning :: string
  agents :: "string list"

text \<open>One element of \<open>response.agent_responses\<close>, with the properties the store reads.\<close>

record agent_response =
  agent :: string
  success :: bool
  data :: "json option"
  error :: "string option"

record query_response =
  orchestration_plan :: OrchestrationPlan
  agent_responses :: "agent_response list"

record session_response =
  session_id :: "string option"

record upload_response =
  res_dataset_id :: string
  res_filename :: string
  res_shape :: "nat \<times> nat"
  res_columns :: "string list"

text \<open>A thrown value: \<open>null\<close> or \<open>undefined\<close>, on which reading a property throws a
  \<open>TypeError\<close>, or any other value; \<open>message\<close> is its \<open>.message\<close> property, if it has
  one.\<close>

datatype js_error = JsNullish | JsError (message: "string option")

record js_file =
  file_name :: string
  file_content :: string

record UIState =
  isSidebarOpen :: bool
  isRightPanelOpen :: bool
  rightPanelWidth :: nat
  isDarkMode :: bool
  sessionId :: "string option"
  userId :: string
  messages :: "message list"
  isThinking :: bool
  processingStep :: "string option"
  activeDataset :: "DatasetContext option"
  selectedAgentId :: "string option"
  currentPlan :: "OrchestrationPlan option"
  agentStatuses :: "string \<rightharpoonup> status"

text \<open>The initial state of the store (uiStore.ts, lines 51 to 67).\<close>

definition initial_state :: UIState where
  "initial_state = \<lparr>isSidebarOpen = True, isRightPanelOpen = False, rightPanelWidth = 450,
     isDarkMode = False, sessionId = None, userId = ''demo_user_01'', messages = [],
     isThinking = False, processingStep = None, activeDataset = None,
     selectedAgentId = None, currentPlan = None, agentStatuses = Map.empty\<rparr>"

subsection \<open>The world around the store\<close>

text \<open>A call of the remote API, with its arguments in the order of the call.\<close>

datatype api_call =
    CreateSession string
  | UploadDataset js_file
  | SendQuery string "string option" string "string option"

record world =
  store :: UIState
  history :: "UIState list"
  clock :: "nat \<Rightarrow> nat"
  reads :: nat
  localeTime :: "nat \<Rightarrow> string"
  api_createSession :: "string \<Rightarrow> js_error + session_response"
  api_uploadDataset :: "js_file \<Rightarrow> js_error + upload_response"
  api_sendQuery :: "string \<Rightarrow> string option \<Rightarrow> string \<Rightarrow> string option
     \<Rightarrow> js_error + query_response"
  calls :: "api_call list"
  console :: "string list"
  unhandled :: "string list"

text \<open>\<open>set(f)\<close>: replace the state and publish the new snapshot.\<close>

definition set_state :: "(UIState \<Rightarrow> UIState) \<Rightarrow> world \<Rightarrow> world" where
  "set_state f w = w\<lparr>store := f (store w), history := history w @ [f (store w)]\<rparr>"

text \<open>\<open>Date.now()\<close>: the next reading of the clock, in milliseconds.\<close>

definition Date_now :: "world \<Rightarrow> nat \<times> world" where
  "Date_now w = (clock w (reads w), w\<lparr>reads := Suc (reads w)\<rparr>)"

text \<open>\<open>new Date().toLocaleTimeString([], {hour: '2-digit', minute: '2-digit'})\<close>:
  the next reading of the clock, formatted by the locale.\<close>

definition toLocaleTimeString :: "world \<Rightarrow> string \<times> world" where
  "toLocaleTimeString w = (localeTime w (clock w (reads w)), w\<lparr>reads := Suc (reads w)\<rparr>)"

text \<open>\<open>await new Promise(r => setTimeout(r, ms))\<close>: time passes, which the next
  reading of the clock shows; the store is not touched.\<close>

definition sleep :: "nat \<Rightarrow> world \<Rightarrow> world" where
  "sleep ms w = w"

definition log_call :: "api_call \<Rightarrow> world \<Rightarrow> world" where
  "log_call c w = w\<lparr>calls := calls w @ [c]\<rparr>"

text \<open>\<open>console.error(label, e)\<close>: the label is kept.\<close>

definition console_error :: "string \<Rightarrow> world \<Rightarrow> world" where
  "console_error label w = w\<lparr>console := console w @ [label]\<rparr>"

text \<open>An exception leaves the action: the action's promise is rejected with it.\<close>

definition reject_with :: "string \<Rightarrow> world \<Rightarrow> world" where
  "reject_with name w = w\<lparr>unhandled := unhandled w @ [name]\<rparr>"

subsection \<open>Strings and numbers of the language\<close>

text \<open>A non-negative integer in a template literal or under \<open>toString()\<close>: its decimal
  digits.\<close>

definition digit_char :: "nat \<Rightarrow> char" where
  "digit_char d = ''0123456789'' ! d"

fun show_nat :: "nat \<Rightarrow> string" where
  "show_nat n = (if n < 10 then [digit_char n] else show_nat (n div 10) @ [digit_char (n mod 10)])"

declare show_nat.simps [simp del]

text \<open>A string is truthy when it is present and not empty.\<close>

fun truthy :: "string option \<Rightarrow> bool" where
  "truthy None = False"
| "truthy (Some s) = (s \<noteq> [])"

text \<open>
  The white space and line terminator code points of the language, each as its UTF-8
  bytes: U+0009 to U+000D, U+0020, U+00A0, U+1680, U+2000 to U+200A, U+2028, U+2029,
  U+202F, U+205F, U+3000 and U+FEFF.
\<close>

definition white_space :: "string list" where
  "white_space = [[CHR 0x09], [CHR 0x0A], [CHR 0x0B], [CHR 0x0C], [CHR 0x0D], [CHR 0x20],
     [CHR 0xC2, CHR 0xA0], [CHR 0xE1, CHR 0x9A, CHR 0x80],
     [CHR 0xE2, CHR 0x80, CHR 0x80], [CHR 0xE2, CHR 0x80, CHR 0x81],
     [CHR 0xE2, CHR 0x80, CHR 0x82], [CHR 0xE2, CHR 0x80, CHR 0x83],
     [CHR 0xE2, CHR 0x80, CHR 0x84], [CHR 0xE2, CHR 0x80, CHR 0x85],
     [CHR 0xE2, CHR 0x80, CHR 0x86], [CHR 0xE2, CHR 0x80, CHR 0x87],
     [CHR 0xE2, CHR 0x80, CHR 0x88], [CHR 0xE2, CHR 0x80, CHR 0x89],
     [CHR 0xE2, CHR 0x80, CHR 0x8A],
     [CHR 0xE2, CHR 0x80, CHR 0xA8], [CHR 0xE2, CHR 0x80, CHR 0xA9],
     [CHR 0xE2, CHR 0x80, CHR 0xAF], [CHR 0xE2, CHR 0x81, CHR 0x9F],
     [CHR 0xE3, CHR 0x80, CHR 0x80], [CHR 0xEF, CHR 0xBB, CHR 0xBF]]"

text \<open>The number of bytes of the one of \<open>ps\<close> the string starts with; 0 when it starts
  with none.\<close>

definition starts_with :: "string list \<Rightarrow> string \<Rightarrow> nat" where
  "starts_with ps s = (case find (\<lambda>p. take (length p) s = p) ps of
     None \<Rightarrow> 0 | Some p \<Rightarrow> length p)"

text \<open>Remove from the start of the string every leading one of \<open>ps\<close>.\<close>

fun strip :: "string list \<Rightarrow> string \<Rightarrow> string" where
  "strip ps [] = []"
| "strip ps (c # cs) = (if starts_with ps (c # cs) = 0 then c # cs
     else strip ps (drop (starts_with ps (c # cs) - 1) cs))"

text \<open>\<open>String.prototype.trim\<close>: the white space is removed from the start, then from the
  end, where the string is read backwards.\<close>

definition trim :: "string \<Rightarrow> string" where
  "trim s = rev (strip (map rev white_space) (rev (strip white_space s)))"

text \<open>
  Numbers are IEEE 754 doubles. A double is modelled by the rational it denotes, and an
  arithmetic operation by the exact operation followed by \<open>fl\<close>, the rounding to the
  nearest double (53 significant bits, ties to the even significand). The exponent range
  is not modelled: the quotient of two array lengths and its product by 100 neither
  overflow nor underflow. \<open>binade x\<close> is the exponent of the power of two at or below
  a positive \<open>x\<close>.
\<close>

definition rne :: "rat \<Rightarrow> int" where
  "rne x = (let f = \<lfloor>x\<rfloor> in
     if x - of_int f < 1 / 2 then f
     else if 1 / 2 < x - of_int f then f + 1
     else if even f then f else f + 1)"

definition binade :: "rat \<Rightarrow> int" where
  "binade x = (let (p, q) = quotient_of x; d = bitlen p - bitlen q in
     if 2 powi d \<le> x then d else d - 1)"

definition fl :: "rat \<Rightarrow> rat" where
  "fl x = (if x = 0 then 0
     else let e = binade \<bar>x\<bar> - 52 in sgn x * of_int (rne (\<bar>x\<bar> / 2 powi e)) * 2 powi e)"

text \<open>\<open>Math.round\<close>: the nearest integer, a tie going up.\<close>

definition Math_round :: "rat \<Rightarrow> int" where
  "Math_round x = \<lfloor>x + 1 / 2\<rfloor>"

text \<open>\<open>Math.round((k / totalAgents) * 100)\<close>, line 218, with \<open>k = completedCount + 1\<close>.
  The loop evaluates it only when \<open>totalAgents\<close> is positive.\<close>

definition progress_pct :: "nat \<Rightarrow> nat \<Rightarrow> int" where
  "progress_pct k totalAgents = Math_round (fl (fl (of_nat k / of_nat totalAgents) * 100))"

subsection \<open>The actions of the store\<close>

text \<open>\<open>initializeSession\<close>, lines 85 to 95. A rejected call is caught and replaced by an
  offline session id.\<close>

definition initializeSession :: "world \<Rightarrow> world" where
  "initializeSession w0 =
     (let userId0 = userId (store w0);
          w1 = log_call (CreateSession userId0) w0
      in case api_createSession w1 userId0 of
           Inr res \<Rightarrow>
             (if truthy (session_id res)
              then set_state (\<lambda>s. s\<lparr>sessionId := session_id res\<rparr>) w1
              else let (t, w2) = Date_now w1
                   in set_state (\<lambda>s. s\<lparr>sessionId := Some (''sess_'' @ show_nat t)\<rparr>) w2)
         | Inl e \<Rightarrow>
             (let w1' = console_error ''Session Init Failed'' w1;
                  (t, w2) = Date_now w1'
              in set_state (\<lambda>s. s\<lparr>sessionId := Some (''offline_sess_'' @ show_nat t)\<rparr>) w2))"

text \<open>The text of the ingestion message, line 116. The check mark U+2705 is its three
  UTF-8 bytes.\<close>

definition ingested_text :: "upload_response \<Rightarrow> string" where
  "ingested_text res = [CHR 0xE2, CHR 0x9C, CHR 0x85] @ '' Ingested **'' @ res_filename res
     @ ''** ('' @ show_nat (fst (res_shape res)) @ '' rows). Ready for analysis.''"

text \<open>\<open>sysMsg.metadata?.displayText || ""\<close>, line 120.\<close>

definition displayText_or_empty :: "message \<Rightarrow> string" where
  "displayText_or_empty m =
     (case metadata m of None \<Rightarrow> []
      | Some md \<Rightarrow> (case md_displayText md of None \<Rightarrow> [] | Some t \<Rightarrow> t))"

text \<open>\<open>uploadDataset\<close>, lines 97 to 125. A rejected call is caught and only logged to
  the console.\<close>

definition uploadDataset :: "js_file \<Rightarrow> world \<Rightarrow> world" where
  "uploadDataset file w0 =
     (let w1 = log_call (UploadDataset file) w0
      in case api_uploadDataset w1 file of
           Inl e \<Rightarrow> console_error ''Upload failed'' w1
         | Inr res \<Rightarrow>
             (let w2 = set_state (\<lambda>s. s\<lparr>activeDataset := Some
                         \<lparr>dataset_id = res_dataset_id res, filename = res_filename res,
                          shape = res_shape res, columns = res_columns res\<rparr>\<rparr>) w1;
                  (t, w3) = Date_now w2;
                  (ts, w4) = toLocaleTimeString w3;
                  sysMsg = \<lparr>msg_id = show_nat t, sender = AI, msg_text = ''dataset_uploaded'',
                            timestamp = ts, msg_type = Text, status = None,
                            metadata = Some (no_metadata\<lparr>md_displayText :=
                              Some (ingested_text res)\<rparr>)\<rparr>
              in set_state (\<lambda>s. s\<lparr>messages := messages s
                   @ [sysMsg\<lparr>msg_text := displayText_or_empty sysMsg\<rparr>]\<rparr>) w4))"

text \<open>\<open>{ ...m, metadata: { ...m.metadata, progress: p } }\<close>, lines 218 and 235.\<close>

definition set_progress :: "int \<Rightarrow> message \<Rightarrow> message" where
  "set_progress p m = m\<lparr>metadata := Some
     ((case metadata m of None \<Rightarrow> no_metadata | Some md \<Rightarrow> md)\<lparr>md_progress := Some p\<rparr>)\<rparr>"

text \<open>The message of one agent's result, lines 195 to 209.\<close>

definition result_message :: "agent_response \<Rightarrow> nat \<Rightarrow> string \<Rightarrow> message" where
  "result_message agentRes t ts =
     \<lparr>msg_id = show_nat t @ ''_'' @ agent agentRes, sender = AI, msg_text = agent agentRes,
      timestamp = ts, msg_type = Analysis,
      status = Some (if success agentRes then Completed else Failed),
      metadata = Some \<lparr>md_agents = None, md_progress = None, md_data = data agentRes,
        md_agent = Some (agent agentRes),
        md_summary = Some ''Click to view detailed report'',
        md_success = Some (success agentRes), md_error = error agentRes,
        md_displayText = None\<rparr>\<rparr>"

text \<open>The update of the first \<open>set\<close> of the loop body, lines 187 to 190.\<close>

definition activating :: "agent_response \<Rightarrow> UIState \<Rightarrow> UIState" where
  "activating agentRes s =
     s\<lparr>processingStep := Some (''Activating '' @ agent agentRes @ ''...''),
       agentStatuses := (agentStatuses s)(agent agentRes \<mapsto> Processing)\<rparr>"

definition activate_agent :: "agent_response \<Rightarrow> world \<Rightarrow> world" where
  "activate_agent agentRes w = set_state (activating agentRes) w"

text \<open>The update of the second \<open>set\<close> of the loop body, lines 211 to 223: at once, the
  agent's status, the selection, the progress of the plan message and the result
  message.\<close>

definition revealing ::
  "string \<Rightarrow> nat \<Rightarrow> nat \<Rightarrow> agent_response \<Rightarrow> message \<Rightarrow> UIState \<Rightarrow> UIState" where
  "revealing planId totalAgents completedCount agentRes resultMsg s =
     s\<lparr>agentStatuses := (agentStatuses s)(agent agentRes \<mapsto>
         (if success agentRes then Completed else Failed)),
       selectedAgentId := Some (agent agentRes),
       messages := map (\<lambda>m. if msg_id m = planId
           then set_progress (progress_pct (completedCount + 1) totalAgents) m else m)
         (messages s) @ [resultMsg]\<rparr>"

definition reveal_agent ::
  "string \<Rightarrow> nat \<Rightarrow> nat \<Rightarrow> agent_response \<Rightarrow> message \<Rightarrow> world \<Rightarrow> world" where
  "reveal_agent planId totalAgents completedCount agentRes resultMsg w =
     set_state (revealing planId totalAgents completedCount agentRes resultMsg) w"

text \<open>The loop \<open>for (const agentRes of agents)\<close>, lines 186 to 227, with its counter
  \<open>completedCount\<close>.\<close>

fun reveal_agents :: "string \<Rightarrow> nat \<Rightarrow> nat \<Rightarrow> agent_response list \<Rightarrow> world \<Rightarrow> world" where
  "reveal_agents planId totalAgents completedCount [] w = w"
| "reveal_agents planId totalAgents completedCount (agentRes # rest) w =
     (let w1 = activate_agent agentRes w;
          w2 = sleep 800 w1;
          (t, w3) = Date_now w2;
          (ts, w4) = toLocaleTimeString w3;
          resultMsg = result_message agentRes t ts;
          w5 = reveal_agent planId totalAgents completedCount agentRes resultMsg w4;
          w6 = sleep 1200 w5
      in reveal_agents planId totalAgents (completedCount + 1) rest w6)"

text \<open>The update of the last \<open>set\<close> of the \<open>try\<close> block, lines 229 to 238.\<close>

definition complete_plan :: "string \<Rightarrow> message \<Rightarrow> message" where
  "complete_plan planId m =
     (if msg_id m = planId then (set_progress 100 m)\<lparr>status := Some Completed\<rparr> else m)"

definition settling :: "string \<Rightarrow> UIState \<Rightarrow> UIState" where
  "settling planId s = s\<lparr>isThinking := False, processingStep := None,
     selectedAgentId := None, messages := map (complete_plan planId) (messages s)\<rparr>"

definition settle :: "string \<Rightarrow> world \<Rightarrow> world" where
  "settle planId w = set_state (settling planId) w"

text \<open>The message with the orchestrator's reasoning, lines 151 to 157, and the plan
  message, lines 161 to 172.\<close>

definition reasoning_message :: "query_response \<Rightarrow> nat \<Rightarrow> string \<Rightarrow> message" where
  "reasoning_message response t ts =
     \<lparr>msg_id = show_nat (t + 1), sender = AI,
      msg_text = reasoning (orchestration_plan response), timestamp = ts,
      msg_type = Text, status = None, metadata = None\<rparr>"

definition plan_message :: "query_response \<Rightarrow> nat \<Rightarrow> string \<Rightarrow> message" where
  "plan_message response t ts =
     \<lparr>msg_id = show_nat (t + 2), sender = AI,
      msg_text = ''Agent Execution Strategy'', timestamp = ts,
      msg_type = Analysis, status = Some Processing,
      metadata = Some (no_metadata\<lparr>md_progress := Some 0,
        md_agents := Some (agents (orchestration_plan response))\<rparr>)\<rparr>"

text \<open>The \<open>try\<close> block after the response has arrived, lines 150 to 238.\<close>

definition query_succeeded :: "query_response \<Rightarrow> world \<Rightarrow> world" where
  "query_succeeded response w0 =
     (let (t1, w1) = Date_now w0;
          (ts1, w2) = toLocaleTimeString w1;
          reasoningMsg = reasoning_message response t1 ts1;
          w3 = set_state (\<lambda>s. s\<lparr>messages := messages s @ [reasoningMsg]\<rparr>) w2;
          (t2, w4) = Date_now w3;
          (ts2, w5) = toLocaleTimeString w4;
          planMsg = plan_message response t2 ts2;
          w6 = set_state (\<lambda>s. s\<lparr>messages := messages s @ [planMsg],
            currentPlan := Some (orchestration_plan response),
            isRightPanelOpen := True, selectedAgentId := None\<rparr>) w5;
          agents0 = agent_responses response;
          totalAgents = length agents0;
          w7 = reveal_agents (msg_id planMsg) totalAgents 0 agents0 w6
      in settle (msg_id planMsg) w7)"

text \<open>The message of the \<open>catch\<close> block, lines 245 to 251, for a thrown value whose
  \<open>.message\<close> property is \<open>msg\<close>.\<close>

definition error_message :: "string option \<Rightarrow> nat \<Rightarrow> string \<Rightarrow> message" where
  "error_message msg t ts =
     \<lparr>msg_id = show_nat t, sender = AI,
      msg_text = ''System Error: '' @ (if truthy msg then the msg else ''Unknown error''),
      timestamp = ts, msg_type = Text, status = None, metadata = None\<rparr>"

text \<open>The \<open>catch\<close> block, lines 240 to 253; \<open>timestamp\<close> is the one taken at line 130.
  The update builds the message inside \<open>set\<close>: it reads the clock for the id, then reads
  \<open>error.message\<close>, line 248. On \<open>null\<close> or \<open>undefined\<close> this read throws a \<open>TypeError\<close>
  out of the update and out of the \<open>catch\<close> block: the state is not replaced.\<close>

definition query_failed :: "string \<Rightarrow> js_error \<Rightarrow> world \<Rightarrow> world" where
  "query_failed timestamp0 err w0 =
     (let w0' = console_error ''Interaction failed'' w0;
          (t, w1) = Date_now w0'
      in case err of
           JsNullish \<Rightarrow> reject_with ''TypeError'' w1
         | JsError msg \<Rightarrow>
             set_state (\<lambda>s. s\<lparr>isThinking := False, processingStep := None,
               messages := messages s @ [error_message msg t timestamp0]\<rparr>) w1)"

text \<open>The user's message, lines 132 to 138.\<close>

definition user_message :: "string \<Rightarrow> nat \<Rightarrow> string \<Rightarrow> message" where
  "user_message text0 t ts =
     \<lparr>msg_id = show_nat t, sender = User, msg_text = text0, timestamp = ts,
      msg_type = Text, status = None, metadata = None\<rparr>"

text \<open>Lines 130 to 253 of \<open>sendMessage\<close>: the user's message, the query and what follows
  it. The session id, the user id and the dataset are the constants of line 128.\<close>

definition submit_query ::
  "string \<Rightarrow> string option \<Rightarrow> string \<Rightarrow> DatasetContext option \<Rightarrow> world \<Rightarrow> world" where
  "submit_query text0 sessionId0 userId0 activeDataset0 w1 =
     (let (timestamp0, w2) = toLocaleTimeString w1;
          (t, w3) = Date_now w2;
          userMsg = user_message text0 t timestamp0;
          w4 = set_state (\<lambda>s. s\<lparr>messages := messages s @ [userMsg], isThinking := True,
            processingStep := Some ''Orchestrator is analyzing request...''\<rparr>) w3;
          context = map_option dataset_id activeDataset0;
          w5 = log_call (SendQuery text0 sessionId0 userId0 context) w4
      in case api_sendQuery w5 text0 sessionId0 userId0 context of
           Inl err \<Rightarrow> query_failed timestamp0 err w5
         | Inr response \<Rightarrow> query_succeeded response w5)"

text \<open>Line 129: \<open>if (!sessionId) await get().initializeSession()\<close>.\<close>

definition ensure_session :: "string option \<Rightarrow> world \<Rightarrow> world" where
  "ensure_session sessionId0 w = (if \<not> truthy sessionId0 then initializeSession w else w)"

text \<open>\<open>sendMessage\<close>, lines 127 to 254. The session id, the user id and the dataset are
  read once, at line 128, before the session is initialized at line 129; the query of
  line 148 is sent with the values read then.\<close>

definition sendMessage :: "string \<Rightarrow> world \<Rightarrow> world" where
  "sendMessage text0 w0 =
     (let sessionId0 = sessionId (store w0);
          userId0 = userId (store w0);
          activeDataset0 = activeDataset (store w0);
          w1 = ensure_session sessionId0 w0
      in submit_query text0 sessionId0 userId0 activeDataset0 w1)"

text \<open>\<open>resetSession\<close>, lines 256 to 262.\<close>

definition resetSession :: "world \<Rightarrow> world" where
  "resetSession w = set_state (\<lambda>s. s\<lparr>messages := [], activeDataset := None,
     currentPlan := None, agentStatuses := Map.empty, isRightPanelOpen := False\<rparr>) w"

text \<open>
  \<open>handleSubmit\<close> of the input panel (InputPanel.tsx, lines 15 to 19), on the panel's
  text and the world. The panel takes the action it calls, \<open>runSimulation\<close>, from the
  store; the store of uiStore.ts declares no action of that name, so the action is a
  parameter.
\<close>

definition handleSubmit ::
  "(string \<Rightarrow> world \<Rightarrow> world) \<Rightarrow> string \<times> world \<Rightarrow> string \<times> world" where
  "handleSubmit runSimulation = (\<lambda>(text0, w).
     if trim text0 = [] then (text0, w) else ([], runSimulation text0 w))"

subsection \<open>What a run of the loop leaves behind\<close>

text \<open>The result messages of the loop over \<open>as\<close>, when the clock is \<open>clk\<close> and has been
  read \<open>r\<close> times before: each pass reads it twice, for the id and for the timestamp.\<close>

fun result_messages ::
  "(nat \<Rightarrow> nat) \<Rightarrow> (nat \<Rightarrow> string) \<Rightarrow> nat \<Rightarrow> agent_response list \<Rightarrow> message list" where
  "result_messages clk fmt r [] = []"
| "result_messages clk fmt r (a # as) =
     result_message a (clk r) (fmt (clk (Suc r))) # result_messages clk fmt (r + 2) as"

text \<open>The snapshots the loop publishes from the state \<open>s\<close>: two for each agent.\<close>

fun loop_states :: "string \<Rightarrow> nat \<Rightarrow> nat \<Rightarrow> (nat \<Rightarrow> nat) \<Rightarrow> (nat \<Rightarrow> string) \<Rightarrow> nat
    \<Rightarrow> UIState \<Rightarrow> agent_response list \<Rightarrow> UIState list" where
  "loop_states pid n c clk fmt r s [] = []"
| "loop_states pid n c clk fmt r s (a # as) =
     (let s1 = activating a s;
          s2 = revealing pid n c a (result_message a (clk r) (fmt (clk (Suc r)))) s1
      in s1 # s2 # loop_states pid n (c + 1) clk fmt (r + 2) s2 as)"

text \<open>The snapshots published between two worlds.\<close>

definition published :: "world \<Rightarrow> world \<Rightarrow> UIState list" where
  "published w w' = drop (length (history w)) (history w')"

text \<open>The progress of the message at position \<open>i\<close>, if it has one.\<close>

definition progress_at :: "nat \<Rightarrow> UIState \<Rightarrow> int option" where
  "progress_at i s = (case metadata (messages s ! i) of None \<Rightarrow> None
     | Some md \<Rightarrow> md_progress md)"

text \<open>The progress the plan message shows after \<open>k\<close> results: 0 as line 169 sets it,
  then what line 218 computes.\<close>

definition shown_progress :: "nat \<Rightarrow> nat \<Rightarrow> int" where
  "shown_progress k n = (if k = 0 then 0 else progress_pct k n)"

text \<open>The progress of the plan message in the snapshots of a successful query with \<open>n\<close>
  agents, from the snapshot that appends the plan message to the last one: 0, then for
  each agent the value at its activation and the value after its result, then 100.\<close>

definition progress_values :: "nat \<Rightarrow> int list" where
  "progress_values n = map (\<lambda>j. shown_progress (j div 2) n) [0..<2 * n + 1] @ [100]"

subsection \<open>Concrete worlds\<close>

text \<open>A backend that answers every call, and one that rejects every call. In both the
  clock stands still at 1000 ms: successive reads fall into the same millisecond.\<close>

definition demo_response :: query_response where
  "demo_response = \<lparr>orchestration_plan = \<lparr>reasoning = ''Analyzing seasonality'',
       agents = [''Harvester'', ''Forecaster'']\<rparr>,
     agent_responses = [
       \<lparr>agent = ''Harvester'', success = True, data = Some ''{}'', error = None\<rparr>,
       \<lparr>agent = ''Forecaster'', success = False, data = None, error = Some ''no data''\<rparr>]\<rparr>"

definition online_world :: world where
  "online_world = \<lparr>store = initial_state, history = [], clock = (\<lambda>i. 1000), reads = 0,
     localeTime = (\<lambda>t. ''09:30''),
     api_createSession = (\<lambda>u. Inr \<lparr>session_id = Some ''sess_a''\<rparr>),
     api_uploadDataset = (\<lambda>f. Inr \<lparr>res_dataset_id = ''d1'', res_filename = ''data.csv'',
       res_shape = (120, 3), res_columns = [''a'', ''b'', ''c'']\<rparr>),
     api_sendQuery = (\<lambda>t s u c. Inr demo_response),
     calls = [], console = [], unhandled = []\<rparr>"

definition offline_world :: world where
  "offline_world = \<lparr>store = initial_state, history = [], clock = (\<lambda>i. 1000), reads = 0,
     localeTime = (\<lambda>t. ''09:30''),
     api_createSession = (\<lambda>u. Inl (JsError (Some ''Network Error''))),
     api_uploadDataset = (\<lambda>f. Inl (JsError (Some ''Network Error''))),
     api_sendQuery = (\<lambda>t s u c. Inl (JsError (Some ''Network Error''))),
     calls = [], console = [], unhandled = []\<rparr>"


text \<open>A backend whose response holds 201 agent results.\<close>

definition crowd_response :: query_response where
  "crowd_response = \<lparr>orchestration_plan = \<lparr>reasoning = ''All hands'', agents = []\<rparr>,
     agent_responses = replicate 201
       \<lparr>agent = ''Worker'', success = True, data = None, error = None\<rparr>\<rparr>"

definition crowd_world :: world where
  "crowd_world = online_world\<lparr>api_sendQuery := (\<lambda>t s u c. Inr crowd_response)\<rparr>"

definition demo_file :: js_file where
  "demo_file = \<lparr>file_name = ''data.csv'', file_content = ''a,b,c''\<rparr>"

section \<open>Properties\<close>

subsection \<open>Basic facts\<close>

lemmas prim_defs = set_state_def Date_now_def toLocaleTimeString_def sleep_def log_call_def
  console_error_def reject_with_def

lemma show_nat_1000: "show_nat 1000 = ''1000''"
  by (simp add: show_nat.simps digit_char_def)

lemma show_nat_120: "show_nat 120 = ''120''"
  by (simp add: show_nat.simps digit_char_def)

lemma initializeSession_frame:
  "api_sendQuery (initializeSession w) = api_sendQuery w"
  "userId (store (initializeSession w)) = userId (store w)"
  "messages (store (initializeSession w)) = messages (store w)"
  "isThinking (store (initializeSession w)) = isThinking (store w)"
  "activeDataset (store (initializeSession w)) = activeDataset (store w)"
  "agentStatuses (store (initializeSession w)) = agentStatuses (store w)"
  "clock (initializeSession w) = clock w"
  "localeTime (initializeSession w) = localeTime w"
  by (simp_all add: initializeSession_def prim_defs Let_def split: sum.splits)

lemma ensure_session_frame [simp]:
  "api_sendQuery (ensure_session sid w) = api_sendQuery w"
  "userId (store (ensure_session sid w)) = userId (store w)"
  "messages (store (ensure_session sid w)) = messages (store w)"
  "isThinking (store (ensure_session sid w)) = isThinking (store w)"
  "activeDataset (store (ensure_session sid w)) = activeDataset (store w)"
  "agentStatuses (store (ensure_session sid w)) = agentStatuses (store w)"
  "clock (ensure_session sid w) = clock w"
  "localeTime (ensure_session sid w) = localeTime w"
  by (simp_all add: ensure_session_def initializeSession_frame)

lemma sendMessage_eq:
  "sendMessage text0 w = submit_query text0 (sessionId (store w)) (userId (store w))
     (activeDataset (store w)) (ensure_session (sessionId (store w)) w)"
  by (simp add: sendMessage_def Let_def)

subsection \<open>Rounding to doubles\<close>

lemma floor_rat_numeral [simp]:
  "\<lfloor>(numeral a :: rat) / numeral b\<rfloor> = numeral a div numeral b"
  using floor_divide_of_int_eq [of "numeral a" "numeral b", where ?'a = rat] by simp

lemma floor_rat_one_numeral [simp]:
  "\<lfloor>(1 :: rat) / numeral b\<rfloor> = 1 div numeral b"
  using floor_divide_of_int_eq [of 1 "numeral b", where ?'a = rat] by simp

lemma rne_bounds: "of_int (rne x) \<le> x + 1 / 2" "x - 1 / 2 \<le> of_int (rne x)"
  unfolding rne_def Let_def by (auto; linarith)+

lemma rne_of_int [simp]: "rne (of_int n) = n"
  by (simp add: rne_def)

lemma rne_mono: assumes "x \<le> y" shows "rne x \<le> rne y"
proof (cases "\<lfloor>x\<rfloor> = \<lfloor>y\<rfloor>")
  case True
  then show ?thesis using assms unfolding rne_def Let_def by auto
next
  case False
  then have "\<lfloor>x\<rfloor> + 1 \<le> \<lfloor>y\<rfloor>" using assms floor_mono [OF assms] by linarith
  moreover have "rne x \<le> \<lfloor>x\<rfloor> + 1" unfolding rne_def Let_def by auto
  moreover have "\<lfloor>y\<rfloor> \<le> rne y" unfolding rne_def Let_def by auto
  ultimately show ?thesis by linarith
qed

lemma powi_two_pos [simp]: "0 < (2::rat) powi e"
  by (simp add: power_int_def)

lemma powi_two_mono: "a \<le> b \<Longrightarrow> (2::rat) powi a \<le> 2 powi b"
  by (rule power_int_increasing) simp_all

lemma powi_two_add: "(2::rat) powi (a + b) = 2 powi a * 2 powi b"
  by (simp add: power_int_add)

lemma binade_unique:
  assumes "(2::rat) powi a \<le> x" "x < 2 powi (a + 1)" "2 powi b \<le> x" "x < 2 powi (b + 1)"
  shows "a = b"
proof (rule ccontr)
  assume "a \<noteq> b"
  then consider "a + 1 \<le> b" | "b + 1 \<le> a" by linarith
  then show False
  proof cases
    case 1
    from powi_two_mono [OF this] assms show False by linarith
  next
    case 2
    from powi_two_mono [OF this] assms show False by linarith
  qed
qed

lemma binade_bounds:
  assumes "0 < x"
  shows "2 powi (binade x) \<le> x" "x < 2 powi (binade x + 1)"
proof -
  obtain p q where pq: "quotient_of x = (p, q)" by (cases "quotient_of x")
  have q: "0 < q" using quotient_of_denom_pos [OF pq] .
  have x: "x = of_int p / of_int q" using quotient_of_div [OF pq] .
  have p: "0 < p" using assms q unfolding x by (simp add: zero_less_divide_iff)
  define bp where "bp = bitlen p"
  define bq where "bq = bitlen q"
  have bp: "2 ^ nat (bp - 1) \<le> p" "p < 2 ^ nat bp" "1 \<le> bp"
    using bitlen_bounds [OF p] p unfolding bp_def by (auto simp: bitlen_alt_def)
  have bq: "2 ^ nat (bq - 1) \<le> q" "q < 2 ^ nat bq" "1 \<le> bq"
    using bitlen_bounds [OF q] q unfolding bq_def by (auto simp: bitlen_alt_def)
  have rp: "(2::rat) powi (bp - 1) \<le> of_int p" "(of_int p :: rat) < 2 powi bp"
  proof -
    have "(of_int (2 ^ nat (bp - 1)) :: rat) \<le> of_int p" using bp(1) by (simp only: of_int_le_iff)
    then show "(2::rat) powi (bp - 1) \<le> of_int p" using bp(3) by (simp add: power_int_def)
    have "(of_int p :: rat) < of_int (2 ^ nat bp)" using bp(2) by (simp only: of_int_less_iff)
    then show "(of_int p :: rat) < 2 powi bp" using bp(3) by (simp add: power_int_def)
  qed
  have rq: "(2::rat) powi (bq - 1) \<le> of_int q" "(of_int q :: rat) < 2 powi bq"
  proof -
    have "(of_int (2 ^ nat (bq - 1)) :: rat) \<le> of_int q" using bq(1) by (simp only: of_int_le_iff)
    then show "(2::rat) powi (bq - 1) \<le> of_int q" using bq(3) by (simp add: power_int_def)
    have "(of_int q :: rat) < of_int (2 ^ nat bq)" using bq(2) by (simp only: of_int_less_iff)
    then show "(of_int q :: rat) < 2 powi bq" using bq(3) by (simp add: power_int_def)
  qed
  have qpos: "(0::rat) < of_int q" using q by simp
  have hi: "x < 2 powi (bp - bq + 1)"
  proof -
    have "of_int p < (2::rat) powi (bp - bq + 1) * 2 powi (bq - 1)"
      using rp(2) by (simp add: powi_two_add [symmetric])
    also have "\<dots> \<le> 2 powi (bp - bq + 1) * of_int q"
      using rq(1) by (simp add: mult_left_mono)
    finally show ?thesis unfolding x using qpos by (simp add: pos_divide_less_eq)
  qed
  have lo: "2 powi (bp - bq - 1) \<le> x"
  proof -
    have "(2::rat) powi (bp - bq - 1) * of_int q \<le> 2 powi (bp - bq - 1) * 2 powi bq"
      using rq(2) by (simp add: mult_left_mono)
    also have "\<dots> = 2 powi (bp - 1)" by (simp add: powi_two_add [symmetric])
    also have "\<dots> \<le> of_int p" using rp(1) .
    finally show ?thesis unfolding x using qpos by (simp add: pos_le_divide_eq)
  qed
  have b: "binade x = (if 2 powi (bp - bq) \<le> x then bp - bq else bp - bq - 1)"
    by (simp add: binade_def pq bp_def bq_def Let_def)
  show "2 powi (binade x) \<le> x" using lo by (simp add: b)
  show "x < 2 powi (binade x + 1)" using hi by (auto simp add: b not_le)
qed

lemma binade_eqI:
  assumes "(2::rat) powi b \<le> x" "x < 2 powi (b + 1)"
  shows "binade x = b"
proof -
  have "0 < x" using assms(1) powi_two_pos [of b] by linarith
  from binade_bounds [OF this] assms show ?thesis by (rule binade_unique)
qed


lemma fl_pos:
  "0 < x \<Longrightarrow> fl x = of_int (rne (x / 2 powi (binade x - 52))) * 2 powi (binade x - 52)"
  by (simp add: fl_def Let_def)

lemma fl_eval:
  assumes "(2::rat) powi b \<le> x" "x < 2 powi (b + 1)" "b \<le> 52"
  shows "fl x = of_int (rne (x * 2 ^ nat (52 - b))) / 2 ^ nat (52 - b)"
proof -
  have "0 < x" using assms(1) powi_two_pos [of b] by linarith
  moreover have "(2::rat) powi (b - 52) = inverse (2 ^ nat (52 - b))"
    using assms(3) by (auto simp add: power_int_def power_one_over inverse_eq_divide)
  ultimately show ?thesis
    by (simp add: fl_pos binade_eqI [OF assms(1,2)] divide_inverse)
qed

lemma powi_split_52:
  "(2::rat) powi b = of_int (2 ^ 52) * 2 powi (b - 52)"
  "(2::rat) powi (b + 1) = of_int (2 ^ 53) * 2 powi (b - 52)"
proof -
  have "(2::rat) powi b = 2 powi (52 + (b - 52))" by simp
  also have "\<dots> = 2 powi 52 * 2 powi (b - 52)" by (rule powi_two_add)
  finally show "(2::rat) powi b = of_int (2 ^ 52) * 2 powi (b - 52)" by simp
  have "b + 1 = 53 + (b - 52)" by simp
  then have "(2::rat) powi (b + 1) = 2 powi (53 + (b - 52))" by (rule arg_cong)
  also have "\<dots> = 2 powi 53 * 2 powi (b - 52)" by (rule powi_two_add)
  finally show "(2::rat) powi (b + 1) = of_int (2 ^ 53) * 2 powi (b - 52)" by simp
qed

lemma fl_bounds:
  assumes "0 < x"
  shows "2 powi (binade x) \<le> fl x" "fl x \<le> 2 powi (binade x + 1)"
proof -
  let ?e = "binade x - 52"
  let ?m = "x / 2 powi ?e"
  have lo: "of_int (2 ^ 52) \<le> ?m"
    using binade_bounds(1) [OF assms] unfolding powi_split_52(1) [of "binade x"]
    by (simp only: pos_le_divide_eq [OF powi_two_pos])
  have hi: "?m \<le> of_int (2 ^ 53)"
    using binade_bounds(2) [OF assms] unfolding powi_split_52(2) [of "binade x"]
    by (simp only: pos_divide_le_eq [OF powi_two_pos] less_imp_le)
  from rne_mono [OF lo] have "(2::int) ^ 52 \<le> rne ?m" by (simp only: rne_of_int)
  then have "(of_int (2 ^ 52) :: rat) \<le> of_int (rne ?m)" by (simp only: of_int_le_iff)
  then have "(of_int (2 ^ 52) :: rat) * 2 powi ?e \<le> of_int (rne ?m) * 2 powi ?e"
    by (rule mult_right_mono) simp
  then show "2 powi (binade x) \<le> fl x"
    unfolding fl_pos [OF assms] powi_split_52(1) [of "binade x"] .
  from rne_mono [OF hi] have "rne ?m \<le> (2::int) ^ 53" by (simp only: rne_of_int)
  then have "(of_int (rne ?m) :: rat) \<le> of_int (2 ^ 53)" by (simp only: of_int_le_iff)
  then have "(of_int (rne ?m) :: rat) * 2 powi ?e \<le> of_int (2 ^ 53) * 2 powi ?e"
    by (rule mult_right_mono) simp
  then show "fl x \<le> 2 powi (binade x + 1)"
    unfolding fl_pos [OF assms] powi_split_52(2) [of "binade x"] .
qed

lemma fl_pos_pos: "0 < x \<Longrightarrow> 0 < fl x"
  using fl_bounds(1) [of x] powi_two_pos [of "binade x"] by linarith

lemma fl_mono_pos:
  assumes "0 < x" "x \<le> y"
  shows "fl x \<le> fl y"
proof -
  have y: "0 < y" using assms by linarith
  have le: "binade x \<le> binade y"
  proof (rule ccontr)
    assume "\<not> binade x \<le> binade y"
    then have "binade y + 1 \<le> binade x" by linarith
    from powi_two_mono [OF this] binade_bounds(2) [OF y] binade_bounds(1) [OF assms(1)] assms(2)
    show False by linarith
  qed
  show ?thesis
  proof (cases "binade x = binade y")
    case True
    let ?e = "binade y - 52"
    have "x / 2 powi ?e \<le> y / 2 powi ?e" using assms(2) by (simp add: divide_right_mono)
    from rne_mono [OF this] have "(of_int (rne (x / 2 powi ?e)) :: rat) \<le> of_int (rne (y / 2 powi ?e))"
      by (simp only: of_int_le_iff)
    then show ?thesis by (simp add: fl_pos [OF assms(1)] fl_pos [OF y] True mult_right_mono)
  next
    case False
    then have "binade x + 1 \<le> binade y" using le by linarith
    from powi_two_mono [OF this] fl_bounds(2) [OF assms(1)] fl_bounds(1) [OF y]
    show ?thesis by linarith
  qed
qed

lemma fl_zero [simp]: "fl 0 = 0"
  by (simp add: fl_def)

lemma fl_mono:
  assumes "0 \<le> x" "x \<le> y"
  shows "fl x \<le> fl y"
proof (cases "x = 0")
  case True
  show ?thesis
  proof (cases "y = 0")
    case True
    with \<open>x = 0\<close> show ?thesis by simp
  next
    case False
    then have "0 < y" using assms by linarith
    from fl_pos_pos [OF this] \<open>x = 0\<close> show ?thesis by simp
  qed
next
  case False
  then have "0 < x" using assms by linarith
  from fl_mono_pos [OF this assms(2)] show ?thesis .
qed

lemma fl_nonneg: "0 \<le> x \<Longrightarrow> 0 \<le> fl x"
  using fl_mono [of 0 x] by simp

lemma percent_mono:
  assumes "0 \<le> x" "x \<le> y"
  shows "Math_round (fl (fl x * 100)) \<le> Math_round (fl (fl y * 100))"
proof -
  have "fl x \<le> fl y" using assms by (rule fl_mono)
  then have "fl x * 100 \<le> fl y * 100" by simp
  moreover have "0 \<le> fl x * 100" using fl_nonneg [OF assms(1)] by simp
  ultimately have "fl (fl x * 100) \<le> fl (fl y * 100)" by (rule fl_mono [rotated])
  then show ?thesis unfolding Math_round_def by (simp add: floor_mono)
qed

lemma progress_pct_mono:
  assumes "j \<le> k"
  shows "progress_pct j n \<le> progress_pct k n"
  unfolding progress_pct_def using assms by (intro percent_mono) (simp_all add: divide_right_mono)

lemma fl_one: "fl 1 = 1"
  using fl_eval [of 0 1] by (simp add: rne_def)

lemma fl_hundred: "fl 100 = 100"
  using fl_eval [of 6 100] by (simp add: rne_def)

lemma progress_pct_full: "0 < n \<Longrightarrow> progress_pct n n = 100"
  by (simp add: progress_pct_def fl_one fl_hundred Math_round_def)

lemma progress_pct_zero: "progress_pct 0 n = 0"
  by (simp add: progress_pct_def Math_round_def)

lemma progress_pct_le_100: "k \<le> n \<Longrightarrow> progress_pct k n \<le> 100"
proof (cases "n = 0")
  case True
  assume "k \<le> n"
  with True show ?thesis by (simp add: progress_pct_zero)
next
  case False
  assume "k \<le> n"
  from progress_pct_mono [OF this, of n] progress_pct_full [of n] False show ?thesis by simp
qed

lemma progress_pct_nonneg: "0 \<le> progress_pct k n"
  using progress_pct_mono [of 0 k n] by (simp add: progress_pct_zero)

lemma progress_pct_200_201: "progress_pct 200 201 = 100"
proof -
  have a: "fl (200 / 201) = 8962387318150241 / 2 ^ 53"
    using fl_eval [of "-1" "200 / 201"] by (simp add: rne_def Let_def)
  have b: "fl (fl (200 / 201) * 100) = 7001865092304876 / 2 ^ 46"
    unfolding a
    using fl_eval [of 6 "8962387318150241 / 2 ^ 53 * 100"] by (simp add: rne_def Let_def)
  show ?thesis
    by (simp add: progress_pct_def b Math_round_def)
qed

lemma percent_198_199: "Math_round (fl (fl (198 / 199) * 100)) = 99"
proof -
  have a: "fl (198 / 199) = 8961936946928223 / 2 ^ 53"
    using fl_eval [of "-1" "198 / 199"] by (simp add: rne_def Let_def)
  have b: "fl (fl (198 / 199) * 100) = 7001513239787674 / 2 ^ 46"
    unfolding a
    using fl_eval [of 6 "8961936946928223 / 2 ^ 53 * 100"] by (simp add: rne_def Let_def)
  show ?thesis
    by (simp add: b Math_round_def)
qed

lemma progress_pct_1_2: "progress_pct 1 2 = 50"
proof -
  have a: "fl (1 / 2) = 1 / 2"
    using fl_eval [of "-1" "1 / 2"] by (simp add: rne_def Let_def)
  have b: "fl 50 = 50"
    using fl_eval [of 5 50] by (simp add: rne_def Let_def)
  show ?thesis
    by (simp add: progress_pct_def a b Math_round_def)
qed

lemma progress_pct_below_100:
  assumes "k < n" "n < 200"
  shows "progress_pct k n < 100"
proof -
  have "199 * k \<le> 198 * n" using assms by linarith
  then have "(of_nat (199 * k) :: rat) \<le> of_nat (198 * n)" by (simp only: of_nat_le_iff)
  then have "(of_nat k :: rat) * 199 \<le> 198 * of_nat n" by (simp add: mult.commute)
  moreover have "(0::rat) < of_nat n" using assms by simp
  ultimately have "(of_nat k :: rat) / of_nat n \<le> 198 / 199"
    by (simp add: field_simps)
  from percent_mono [OF _ this] have "progress_pct k n \<le> 99"
    by (simp add: progress_pct_def percent_198_199)
  then show ?thesis by simp
qed

subsection \<open>The messages a run leaves\<close>

lemma show_nat_digits: "set (show_nat n) \<subseteq> set ''0123456789''"
proof (induction n rule: show_nat.induct)
  case (1 n)
  have d: "digit_char k \<in> set ''0123456789''" if "k < 10" for k
  proof -
    from that have "k \<in> {0,1,2,3,4,5,6,7,8,9}" by auto
    then show ?thesis by (auto simp: digit_char_def)
  qed
  show ?case
  proof (cases "n < 10")
    case True
    then show ?thesis using d[of n] by (subst show_nat.simps) simp
  next
    case False
    then show ?thesis using 1 d[of "n mod 10"] by (subst show_nat.simps) simp
  qed
qed

lemma result_id_not_numeral: "msg_id (result_message a t ts) \<noteq> show_nat p"
proof
  assume "msg_id (result_message a t ts) = show_nat p"
  then have "CHR ''_'' \<in> set (show_nat p)" by (simp add: result_message_def) (metis in_set_conv_decomp)
  with show_nat_digits[of p] show False by auto
qed

lemma set_progress_simps [simp]:
  "msg_id (set_progress p m) = msg_id m"
  "sender (set_progress p m) = sender m"
  "msg_text (set_progress p m) = msg_text m"
  "msg_type (set_progress p m) = msg_type m"
  "status (set_progress p m) = status m"
  "set_progress q (set_progress p m) = set_progress q m"
  by (simp_all add: set_progress_def)

lemma complete_plan_simps [simp]:
  "msg_id (complete_plan pid m) = msg_id m"
  "sender (complete_plan pid m) = sender m"
  "msg_text (complete_plan pid m) = msg_text m"
  "msg_type (complete_plan pid m) = msg_type m"
  "complete_plan pid (if b \<and> msg_id m = pid then set_progress p m else m) = complete_plan pid m"
  by (simp_all add: complete_plan_def)

lemma complete_plan_set_progress [simp]:
  "msg_id m = pid \<Longrightarrow> complete_plan pid (set_progress p m) = complete_plan pid m"
  by (simp add: complete_plan_def)

lemma complete_plan_result [simp]:
  "complete_plan (show_nat p) (result_message a t ts) = result_message a t ts"
  by (simp add: complete_plan_def result_id_not_numeral)

lemma complete_plan_results [simp]:
  "map (complete_plan (show_nat p)) (result_messages clk fmt r as) = result_messages clk fmt r as"
  by (induction as arbitrary: r) simp_all

lemma reveal_agents_frame [simp]:
  "clock (reveal_agents pid n c as w) = clock w"
  "localeTime (reveal_agents pid n c as w) = localeTime w"
  "reads (reveal_agents pid n c as w) = reads w + 2 * length as"
  "calls (reveal_agents pid n c as w) = calls w"
  "console (reveal_agents pid n c as w) = console w"
  by (induction as arbitrary: w c; simp add: activate_agent_def reveal_agent_def prim_defs Let_def)+

lemma reveal_agents_messages:
  "messages (store (reveal_agents (show_nat p) n c as w)) =
     map (\<lambda>m. if as \<noteq> [] \<and> msg_id m = show_nat p
               then set_progress (progress_pct (c + length as) n) m else m) (messages (store w))
     @ result_messages (clock w) (localeTime w) (reads w) as"
proof (induction as arbitrary: w c)
  case Nil
  show ?case by simp
next
  case (Cons a as)
  show ?case
    by (simp add: Cons.IH activate_agent_def reveal_agent_def activating_def revealing_def
        prim_defs Let_def result_id_not_numeral) 
qed

lemma reveal_agents_history:
  "history (reveal_agents pid n c as w) =
     history w @ loop_states pid n c (clock w) (localeTime w) (reads w) (store w) as"
  by (induction as arbitrary: w c)
     (simp_all add: activate_agent_def reveal_agent_def prim_defs Let_def)

lemma query_succeeded_messages:
  "messages (store (query_succeeded resp w)) =
     map (complete_plan (show_nat (clock w (reads w + 2) + 2)))
       (messages (store w) @ [reasoning_message resp (clock w (reads w)) (localeTime w (clock w (reads w + 1))),
          plan_message resp (clock w (reads w + 2)) (localeTime w (clock w (reads w + 3)))])
     @ result_messages (clock w) (localeTime w) (reads w + 4) (agent_responses resp)"
proof -
  have pid: "msg_id (plan_message resp t ts) = show_nat (t + 2)" for t ts
    by (simp add: plan_message_def)
  have n: "reads w + 2 = Suc (Suc (reads w))" "reads w + 3 = Suc (Suc (Suc (reads w)))"
    "reads w + 4 = Suc (Suc (Suc (Suc (reads w))))" "reads w + 1 = Suc (reads w)"
    by simp_all
  show ?thesis
    unfolding n
    by (simp add: query_succeeded_def settle_def settling_def prim_defs Let_def pid
      reveal_agents_messages comp_def)
qed


lemma query_failed_messages:
  "messages (store (query_failed ts err w)) = messages (store w) @
     (case err of JsNullish \<Rightarrow> []
      | JsError msg \<Rightarrow> [error_message msg (clock w (reads w)) ts])"
  by (simp add: query_failed_def prim_defs Let_def split: js_error.splits)

lemma submit_query_failure_messages:
  assumes "api_sendQuery w text0 sid uid (map_option dataset_id ds) = Inl err"
  shows "messages (store (submit_query text0 sid uid ds w)) = messages (store w) @
     user_message text0 (clock w (reads w + 1)) (localeTime w (clock w (reads w))) #
     (case err of JsNullish \<Rightarrow> []
      | JsError msg \<Rightarrow>
          [error_message msg (clock w (reads w + 2)) (localeTime w (clock w (reads w)))])"
  using assms
  by (simp add: submit_query_def query_failed_messages prim_defs Let_def
      split: js_error.splits)


lemma submit_query_rejected_with_value:
  assumes "api_sendQuery w text0 sid uid (map_option dataset_id ds) = Inl (JsError msg)"
  shows "\<not> isThinking (store (submit_query text0 sid uid ds w))"
  using assms
  by (simp add: submit_query_def query_failed_def prim_defs Let_def)

lemma submit_query_success_messages:
  assumes "api_sendQuery w text0 sid uid (map_option dataset_id ds) = Inr resp"
  shows "messages (store (submit_query text0 sid uid ds w)) =
     map (complete_plan (show_nat (clock w (reads w + 4) + 2)))
       (messages (store w) @
         [user_message text0 (clock w (reads w + 1)) (localeTime w (clock w (reads w))),
          reasoning_message resp (clock w (reads w + 2)) (localeTime w (clock w (reads w + 3))),
          plan_message resp (clock w (reads w + 4)) (localeTime w (clock w (reads w + 5)))])
     @ result_messages (clock w) (localeTime w) (reads w + 6) (agent_responses resp)"
  using assms by (simp add: submit_query_def query_succeeded_messages prim_defs Let_def
      numeral_eq_Suc)

lemma sendMessage_failure_messages:
  assumes "api_sendQuery w text0 (sessionId (store w)) (userId (store w))
             (map_option dataset_id (activeDataset (store w))) = Inl err"
  shows "\<exists>tu tsu te. messages (store (sendMessage text0 w)) = messages (store w) @
     user_message text0 tu tsu #
     (case err of JsNullish \<Rightarrow> [] | JsError msg \<Rightarrow> [error_message msg te tsu])"
proof -
  let ?w1 = "ensure_session (sessionId (store w)) w"
  have ko: "api_sendQuery ?w1 text0 (sessionId (store w)) (userId (store w))
             (map_option dataset_id (activeDataset (store w))) = Inl err"
    using assms by simp
  show ?thesis
  proof (cases err)
    case JsNullish
    from submit_query_failure_messages [OF ko] show ?thesis
      unfolding sendMessage_eq JsNullish by (simp del: append.simps) blast
  next
    case (JsError msg)
    from submit_query_failure_messages [OF ko] show ?thesis
      unfolding sendMessage_eq JsError by (simp del: append.simps) blast
  qed
qed

lemma sendMessage_success_messages:
  assumes "api_sendQuery w text0 (sessionId (store w)) (userId (store w))
             (map_option dataset_id (activeDataset (store w))) = Inr resp"
  shows "\<exists>tu tsu tr tsr tp tsp r. messages (store (sendMessage text0 w)) =
     map (complete_plan (show_nat (tp + 2)))
       (messages (store w) @ [user_message text0 tu tsu, reasoning_message resp tr tsr,
          plan_message resp tp tsp])
     @ result_messages (clock w) (localeTime w) r (agent_responses resp)"
proof -
  let ?w1 = "ensure_session (sessionId (store w)) w"
  have "api_sendQuery ?w1 text0 (sessionId (store w)) (userId (store w))
             (map_option dataset_id (activeDataset (store w))) = Inr resp"
    using assms by simp
  from submit_query_success_messages [OF this] show ?thesis
    unfolding sendMessage_eq by (simp del: map_append append.simps) blast
qed


lemma result_messages_length [simp]: "length (result_messages clk fmt r as) = length as"
  by (induction as arbitrary: r) simp_all

lemma result_messages_sender [simp]:
  "map sender (result_messages clk fmt r as) = replicate (length as) AI"
  by (induction as arbitrary: r) (simp_all add: result_message_def)

lemma result_messages_view:
  "map (\<lambda>m. (sender m, msg_type m, msg_text m, status m, metadata m))
     (result_messages clk fmt r as) =
   map (\<lambda>a. (AI, Analysis, agent a, Some (if success a then Completed else Failed),
     Some \<lparr>md_agents = None, md_progress = None, md_data = data a,
       md_agent = Some (agent a), md_summary = Some ''Click to view detailed report'',
       md_success = Some (success a), md_error = error a, md_displayText = None\<rparr>)) as"
  by (induction as arbitrary: r) (simp_all add: result_message_def)

lemma completed_plan_message:
  "complete_plan (show_nat (tp + 2)) (plan_message resp tp tsp) =
     \<lparr>msg_id = show_nat (tp + 2), sender = AI, msg_text = ''Agent Execution Strategy'',
      timestamp = tsp, msg_type = Analysis, status = Some Completed,
      metadata = Some (no_metadata\<lparr>md_progress := Some 100,
        md_agents := Some (agents (orchestration_plan resp))\<rparr>)\<rparr>"
  by (simp add: complete_plan_def plan_message_def set_progress_def no_metadata_def)

lemma reveal_agents_sessionId [simp]:
  "sessionId (store (reveal_agents pid n c as w)) = sessionId (store w)"
  by (induction as arbitrary: w c)
     (simp_all add: activate_agent_def reveal_agent_def activating_def revealing_def
        prim_defs Let_def)

lemma submit_query_calls:
  "calls (submit_query text0 sid uid ds w) =
     calls w @ [SendQuery text0 sid uid (map_option dataset_id ds)]"
  by (simp add: submit_query_def query_failed_def query_succeeded_def settle_def prim_defs
      Let_def split: sum.splits js_error.splits)

lemma submit_query_sessionId:
  "sessionId (store (submit_query text0 sid uid ds w)) = sessionId (store w)"
  by (simp add: submit_query_def query_failed_def query_succeeded_def settle_def settling_def
      prim_defs Let_def split: sum.splits js_error.splits)

lemma sendMessage_length:
  "length (messages (store w)) < length (messages (store (sendMessage text0 w)))"
proof (cases "api_sendQuery w text0 (sessionId (store w)) (userId (store w))
             (map_option dataset_id (activeDataset (store w)))")
  case (Inl err)
  from sendMessage_failure_messages [OF Inl] show ?thesis by auto
next
  case (Inr resp)
  from sendMessage_success_messages [OF Inr] show ?thesis by auto
qed

lemma sendMessage_nth_user:
  "sender (messages (store (sendMessage text0 w)) ! length (messages (store w))) = User
   \<and> msg_text (messages (store (sendMessage text0 w)) ! length (messages (store w))) = text0"
proof (cases "api_sendQuery w text0 (sessionId (store w)) (userId (store w))
             (map_option dataset_id (activeDataset (store w)))")
  case (Inl err)
  from sendMessage_failure_messages [OF Inl] show ?thesis
    by (auto simp add: user_message_def)
next
  case (Inr resp)
  from sendMessage_success_messages [OF Inr] show ?thesis
    by (auto simp add: user_message_def nth_append)
qed

subsection \<open>The snapshots a run publishes\<close>

lemma loop_states_length [simp]:
  "length (loop_states pid n c clk fmt r s as) = 2 * length as"
  by (induction as arbitrary: s c r) (simp_all add: Let_def)

lemma progress_at_activating [simp]:
  "progress_at i (activating a s) = progress_at i s"
  "messages (activating a s) = messages s"
  by (simp_all add: progress_at_def activating_def)

lemma revealing_messages:
  "messages (revealing pid n c a m s) =
     map (\<lambda>m. if msg_id m = pid then set_progress (progress_pct (c + 1) n) m else m)
       (messages s) @ [m]"
  by (simp add: revealing_def)

lemma progress_at_revealing:
  "i < length (messages s) \<Longrightarrow> msg_id (messages s ! i) = pid \<Longrightarrow>
     progress_at i (revealing pid n c a m s) = Some (progress_pct (c + 1) n)
     \<and> msg_id (messages (revealing pid n c a m s) ! i) = pid
     \<and> i < length (messages (revealing pid n c a m s))"
  by (simp add: revealing_messages progress_at_def nth_append set_progress_def)

lemma loop_states_progress:
  assumes "i < length (messages s)" "msg_id (messages s ! i) = pid"
    "progress_at i s = Some (shown_progress c n)" "j < 2 * length as"
  shows "progress_at i (loop_states pid n c clk fmt r s as ! j)
           = Some (shown_progress (c + (j + 1) div 2) n)"
  using assms
proof (induction as arbitrary: s c r j)
  case Nil
  then show ?case by simp
next
  case (Cons a as)
  let ?s1 = "activating a s"
  let ?s2 = "revealing pid n c a (result_message a (clk r) (fmt (clk (Suc r)))) ?s1"
  have s2: "progress_at i ?s2 = Some (progress_pct (c + 1) n)"
    "msg_id (messages ?s2 ! i) = pid" "i < length (messages ?s2)"
    using progress_at_revealing [of i ?s1 pid n c a] Cons.prems(1,2) by simp_all
  consider "j = 0" | "j = 1" | j' where "j = Suc (Suc j')"
    by (cases j; simp) (metis One_nat_def not0_implies_Suc)
  then show ?case
  proof cases
    case 1
    then show ?thesis using Cons.prems(3) by (simp add: Let_def)
  next
    case 2
    then show ?thesis using s2(1) by (simp add: Let_def shown_progress_def)
  next
    case 3
    have j': "j' < 2 * length as" using Cons.prems(4) 3 by simp
    have "progress_at i ?s2 = Some (shown_progress (c + 1) n)"
      using s2(1) by (simp add: shown_progress_def)
    from Cons.IH [OF s2(3) s2(2) this j', of "r + 2"]
    show ?thesis using 3 by (simp add: Let_def)
  qed
qed

lemma loop_states_statuses:
  assumes "k < length as"
  shows "agentStatuses (loop_states pid n c clk fmt r s as ! (2 * k)) (agent (as ! k))
           = Some Processing
    \<and> agentStatuses (loop_states pid n c clk fmt r s as ! (2 * k + 1)) (agent (as ! k))
           = Some (if success (as ! k) then Completed else Failed)
    \<and> (\<exists>t ts. messages (loop_states pid n c clk fmt r s as ! (2 * k + 1)) =
          map (\<lambda>m. if msg_id m = pid then set_progress (progress_pct (c + k + 1) n) m else m)
            (messages (loop_states pid n c clk fmt r s as ! (2 * k)))
          @ [result_message (as ! k) t ts])"
  using assms
proof (induction as arbitrary: s c r k)
  case Nil
  then show ?case by simp
next
  case (Cons a as)
  show ?case
  proof (cases k)
    case 0
    then show ?thesis
      by (auto simp add: Let_def activating_def revealing_def)
  next
    case (Suc k')
    then have "k' < length as" using Cons.prems by simp
    from Cons.IH [OF this, where c = "Suc c" and r = "Suc (Suc r)"
        and s = "revealing pid n c a (result_message a (clk r) (fmt (clk (Suc r))))
          (activating a s)"]
    show ?thesis using Suc by (simp add: Let_def cong del: if_weak_cong)
  qed
qed

lemma query_succeeded_history:
  "history (query_succeeded resp w) =
    (let rm = reasoning_message resp (clock w (reads w)) (localeTime w (clock w (reads w + 1)));
         pm = plan_message resp (clock w (reads w + 2)) (localeTime w (clock w (reads w + 3)));
         s1 = (store w)\<lparr>messages := messages (store w) @ [rm]\<rparr>;
         s2 = (store w)\<lparr>messages := messages (store w) @ [rm, pm],
                currentPlan := Some (orchestration_plan resp),
                isRightPanelOpen := True, selectedAgentId := None\<rparr>
     in history w @ [s1, s2]
        @ loop_states (msg_id pm) (length (agent_responses resp)) 0 (clock w) (localeTime w)
            (reads w + 4) s2 (agent_responses resp)
        @ [store (query_succeeded resp w)])"
  by (simp add: query_succeeded_def settle_def prim_defs Let_def reveal_agents_history
      numeral_eq_Suc)


lemma plan_message_simps [simp]:
  "msg_id (plan_message resp t ts) = show_nat (t + 2)"
  "metadata (plan_message resp t ts) = Some (no_metadata\<lparr>md_progress := Some 0,
        md_agents := Some (agents (orchestration_plan resp))\<rparr>)"
  by (simp_all add: plan_message_def)

lemma submit_query_success_history:
  assumes "api_sendQuery w text0 sid uid (map_option dataset_id ds) = Inr resp"
  shows "\<exists>su sr sp pid r.
     history (submit_query text0 sid uid ds w) = history w @ [su, sr] @ sp #
       loop_states pid (length (agent_responses resp)) 0 (clock w) (localeTime w) r sp
         (agent_responses resp) @ [store (submit_query text0 sid uid ds w)]
     \<and> length (messages sp) = length (messages (store w)) + 3
     \<and> msg_id (messages sp ! (length (messages (store w)) + 2)) = pid
     \<and> progress_at (length (messages (store w)) + 2) sp = Some 0"
proof -
  define w5 where "w5 = log_call (SendQuery text0 sid uid (map_option dataset_id ds))
    (set_state (\<lambda>s. s\<lparr>messages := messages s @
        [user_message text0 (clock w (Suc (reads w))) (localeTime w (clock w (reads w)))],
        isThinking := True,
        processingStep := Some ''Orchestrator is analyzing request...''\<rparr>)
      (w\<lparr>reads := Suc (Suc (reads w))\<rparr>))"
  have sq: "submit_query text0 sid uid ds w = query_succeeded resp w5"
    using assms by (simp add: submit_query_def w5_def prim_defs Let_def)
  have w5: "history w5 = history w @ [store w5]" "clock w5 = clock w"
    "localeTime w5 = localeTime w"
    "length (messages (store w5)) = length (messages (store w)) + 1"
    by (simp_all add: w5_def prim_defs)
  show ?thesis
    unfolding sq query_succeeded_history Let_def w5(1)
    by (simp add: w5 progress_at_def nth_append no_metadata_def) blast
qed

lemma ensure_session_history:
  "\<exists>pre. history (ensure_session sid w) = history w @ pre
     \<and> length pre = (if truthy sid then 0 else 1)"
  by (simp add: ensure_session_def initializeSession_def prim_defs Let_def split: sum.splits)

lemma sendMessage_success_published:
  assumes "api_sendQuery w text0 (sessionId (store w)) (userId (store w))
             (map_option dataset_id (activeDataset (store w))) = Inr resp"
  shows "\<exists>pre sp pid r.
     published w (sendMessage text0 w) = pre @ sp #
       loop_states pid (length (agent_responses resp)) 0 (clock w) (localeTime w) r sp
         (agent_responses resp) @ [store (sendMessage text0 w)]
     \<and> length pre = (if truthy (sessionId (store w)) then 2 else 3)
     \<and> length (messages sp) = length (messages (store w)) + 3
     \<and> msg_id (messages sp ! (length (messages (store w)) + 2)) = pid
     \<and> progress_at (length (messages (store w)) + 2) sp = Some 0"
proof -
  let ?w1 = "ensure_session (sessionId (store w)) w"
  have "api_sendQuery ?w1 text0 (sessionId (store w)) (userId (store w))
             (map_option dataset_id (activeDataset (store w))) = Inr resp"
    using assms by simp
  from submit_query_success_history [OF this] obtain su sr sp pid r where
    h: "history (sendMessage text0 w) = history ?w1 @ [su, sr] @ sp #
       loop_states pid (length (agent_responses resp)) 0 (clock w) (localeTime w) r sp
         (agent_responses resp) @ [store (sendMessage text0 w)]"
    and p: "length (messages sp) = length (messages (store w)) + 3"
      "msg_id (messages sp ! (length (messages (store w)) + 2)) = pid"
      "progress_at (length (messages (store w)) + 2) sp = Some 0"
    unfolding sendMessage_eq by (auto simp del: append.simps)
  from ensure_session_history [of "sessionId (store w)" w] obtain pre where
    pre: "history ?w1 = history w @ pre"
      "length pre = (if truthy (sessionId (store w)) then 0 else 1)" by blast
  have "published w (sendMessage text0 w) = (pre @ [su, sr]) @ sp #
       loop_states pid (length (agent_responses resp)) 0 (clock w) (localeTime w) r sp
         (agent_responses resp) @ [store (sendMessage text0 w)]"
    by (simp add: published_def h pre)
  moreover have "length (pre @ [su, sr]) = (if truthy (sessionId (store w)) then 2 else 3)"
    by (simp add: pre)
  ultimately show ?thesis using p by blast
qed


lemma published_nth_loop:
  assumes "H = pre @ sp # L @ [fin]" "j < length L"
  shows "H ! (length pre + 1 + j) = L ! j" "H ! length pre = sp"
    "H ! (length pre + 1 + length L) = fin" "length H = length pre + length L + 2"
    "drop (length pre) H = sp # L @ [fin]"
  using assms by (simp_all add: nth_append)

lemma sendMessage_progress_values:
  assumes "api_sendQuery w text0 (sessionId (store w)) (userId (store w))
             (map_option dataset_id (activeDataset (store w))) = Inr resp"
  shows "map (progress_at (length (messages (store w)) + 2))
           (drop (if truthy (sessionId (store w)) then 2 else 3)
             (published w (sendMessage text0 w)))
         = map Some (progress_values (length (agent_responses resp)))"
    and "k < length (agent_responses resp) \<Longrightarrow>
      progress_at (length (messages (store w)) + 2)
        (published w (sendMessage text0 w)
          ! ((if truthy (sessionId (store w)) then 3 else 4) + 2 * k + 1))
      = Some (progress_pct (k + 1) (length (agent_responses resp)))"
proof -
  let ?n = "length (agent_responses resp)"
  let ?i = "length (messages (store w)) + 2"
  from sendMessage_success_published [OF assms(1)] obtain pre sp pid r where
    H: "published w (sendMessage text0 w) = pre @ sp #
       loop_states pid ?n 0 (clock w) (localeTime w) r sp
         (agent_responses resp) @ [store (sendMessage text0 w)]"
    and pre: "length pre = (if truthy (sessionId (store w)) then 2 else 3)"
    and sp: "length (messages sp) = length (messages (store w)) + 3"
      "msg_id (messages sp ! ?i) = pid" "progress_at ?i sp = Some 0"
    by blast
  let ?L = "loop_states pid ?n 0 (clock w) (localeTime w) r sp (agent_responses resp)"
  have i: "?i < length (messages sp)" using sp(1) by simp
  have sp0: "progress_at ?i sp = Some (shown_progress 0 ?n)"
    using sp(3) by (simp add: shown_progress_def)
  have L: "progress_at ?i (?L ! j) = Some (shown_progress ((j + 1) div 2) ?n)"
    if "j < 2 * ?n" for j
    using loop_states_progress [OF i sp(2) sp0 that, of "clock w" "localeTime w" r] by simp
  have fin: "progress_at ?i (store (sendMessage text0 w)) = Some 100"
  proof -
    from sendMessage_success_messages [OF assms(1)] obtain tu tsu tr tsr tp tsp r' where
      m: "messages (store (sendMessage text0 w)) =
       map (complete_plan (show_nat (tp + 2)))
         (messages (store w) @ [user_message text0 tu tsu, reasoning_message resp tr tsr,
            plan_message resp tp tsp])
       @ result_messages (clock w) (localeTime w) r' (agent_responses resp)"
      by blast
    have "messages (store (sendMessage text0 w)) ! ?i
       = complete_plan (show_nat (tp + 2)) (plan_message resp tp tsp)"
      by (simp add: m nth_append)
    then show ?thesis
      unfolding progress_at_def completed_plan_message by (simp add: no_metadata_def)
  qed
  have mL: "map (progress_at ?i) ?L = map (\<lambda>j. Some (shown_progress ((j + 1) div 2) ?n)) [0..<2 * ?n]"
    by (rule nth_equalityI) (simp_all add: L [simplified])
  have d: "drop (length pre) (published w (sendMessage text0 w))
     = sp # ?L @ [store (sendMessage text0 w)]"
    by (simp add: H)
  have up: "[0..<2 * ?n + 1] = 0 # map Suc [0..<2 * ?n]"
    by (simp add: upt_conv_Cons map_Suc_upt del: upt_Suc)
  show "map (progress_at ?i)
           (drop (if truthy (sessionId (store w)) then 2 else 3)
             (published w (sendMessage text0 w)))
         = map Some (progress_values ?n)"
    unfolding pre [symmetric] d progress_values_def up
    by (simp add: sp0 [simplified] mL [simplified] fin [simplified] comp_def del: upt_Suc)
  assume k: "k < ?n"
  have j: "2 * k + 1 < length ?L" using k by simp
  have off: "(if truthy (sessionId (store w)) then 3 else 4) = length pre + 1"
    by (simp add: pre)
  have "published w (sendMessage text0 w) ! (length pre + 1 + (2 * k + 1)) = ?L ! (2 * k + 1)"
    using published_nth_loop(1) [OF H j] .
  then show "progress_at ?i (published w (sendMessage text0 w)
          ! ((if truthy (sessionId (store w)) then 3 else 4) + 2 * k + 1))
      = Some (progress_pct (k + 1) ?n)"
    unfolding off using L [of "2 * k + 1"] k by (simp add: add.assoc shown_progress_def)
qed

lemma shown_progress_mono: "j \<le> k \<Longrightarrow> shown_progress j n \<le> shown_progress k n"
  using progress_pct_mono [of j k n] progress_pct_nonneg [of k n]
  by (auto simp add: shown_progress_def)

lemma shown_progress_le_100: "k \<le> n \<Longrightarrow> shown_progress k n \<le> 100"
  using progress_pct_le_100 [of k n] by (simp add: shown_progress_def)

lemma sorted_progress_values: "sorted (progress_values n)"
proof -
  have "sorted (map (\<lambda>j. shown_progress (j div 2) n) [0..<2 * n + 1])"
    unfolding sorted_map
    by (rule sorted_wrt_mono_rel [where P = "(\<le>)"])
       (simp_all add: shown_progress_mono div_le_mono del: upt_Suc)
  moreover have "shown_progress (j div 2) n \<le> 100" if "j < 2 * n + 1" for j
    using that by (intro shown_progress_le_100) simp
  ultimately show ?thesis
    unfolding progress_values_def by (auto simp add: sorted_append simp del: upt_Suc)
qed

lemma submit_query_first_snapshot:
  "\<exists>u s rest. history (submit_query text0 sid uid ds w) = history w @ s # rest
     \<and> messages s = messages (store w) @ [u] \<and> sender u = User \<and> msg_text u = text0"
proof (cases "api_sendQuery w text0 sid uid (map_option dataset_id ds)")
  case (Inl err)
  then show ?thesis
    by (simp add: submit_query_def query_failed_def prim_defs Let_def user_message_def
        split: js_error.splits)
next
  case (Inr resp)
  then show ?thesis
    by (simp add: submit_query_def query_succeeded_history prim_defs Let_def user_message_def)
qed

lemma ensure_session_snapshots:
  "\<exists>pre. history (ensure_session sid w) = history w @ pre
     \<and> (\<forall>p\<in>set pre. messages p = messages (store w))"
  by (simp add: ensure_session_def initializeSession_def prim_defs Let_def split: sum.splits)

lemma sendMessage_first_snapshot:
  "\<exists>pre s rest u. published w (sendMessage text0 w) = pre @ s # rest
     \<and> (\<forall>p\<in>set pre. messages p = messages (store w))
     \<and> messages s = messages (store w) @ [u] \<and> sender u = User \<and> msg_text u = text0"
proof -
  let ?w1 = "ensure_session (sessionId (store w)) w"
  from ensure_session_snapshots [of "sessionId (store w)" w] obtain pre where
    pre: "history ?w1 = history w @ pre" "\<forall>p\<in>set pre. messages p = messages (store w)"
    by blast
  from submit_query_first_snapshot [of text0 "sessionId (store w)" "userId (store w)"
      "activeDataset (store w)" ?w1]
  obtain u s rest where
    h: "history (sendMessage text0 w) = history ?w1 @ s # rest"
    and s: "messages s = messages (store w) @ [u]" "sender u = User" "msg_text u = text0"
    unfolding sendMessage_eq by auto
  have "published w (sendMessage text0 w) = pre @ s # rest"
    by (simp add: published_def h pre(1))
  with pre(2) s show ?thesis by blast
qed

subsection \<open>resetSession\<close>

text \<open>
  C7. From every state, \<open>resetSession\<close> leaves an empty message list, no active
  dataset, no current plan and an empty agent status map, and the session id is the one
  before the call.
\<close>

theorem resetSession_clears:
  "messages (store (resetSession w)) = [] \<and> activeDataset (store (resetSession w)) = None
   \<and> currentPlan (store (resetSession w)) = None
   \<and> agentStatuses (store (resetSession w)) = Map.empty
   \<and> sessionId (store (resetSession w)) = sessionId (store w)"
  by (simp add: resetSession_def set_state_def)

subsection \<open>uploadDataset\<close>

text \<open>
  C8. \<open>uploadDataset\<close> appends a message exactly when the upload succeeds. On success
  the active dataset becomes the one of the response, and one message is appended, sent
  by the assistant, of type text, whose text holds the file name and the row count of
  the response. On failure the store is as before and no snapshot is published: the
  error only reaches the console.
\<close>

theorem uploadDataset_message_iff_success:
  "(\<forall>res. api_uploadDataset w file = Inr res \<longrightarrow>
      activeDataset (store (uploadDataset file w)) = Some \<lparr>dataset_id = res_dataset_id res,
        filename = res_filename res, shape = res_shape res, columns = res_columns res\<rparr>
      \<and> (\<exists>m. messages (store (uploadDataset file w)) = messages (store w) @ [m]
            \<and> sender m = AI \<and> msg_type m = Text
            \<and> msg_text m = [CHR 0xE2, CHR 0x9C, CHR 0x85] @ '' Ingested **''
                 @ res_filename res @ ''** ('' @ show_nat (fst (res_shape res))
                 @ '' rows). Ready for analysis.''))
   \<and> (\<forall>e. api_uploadDataset w file = Inl e \<longrightarrow>
      store (uploadDataset file w) = store w \<and> history (uploadDataset file w) = history w
      \<and> console (uploadDataset file w) = console w @ [''Upload failed''])"
  by (simp add: uploadDataset_def prim_defs Let_def ingested_text_def
      displayText_or_empty_def no_metadata_def)

theorem uploadDataset_message_iff_success_witness:
  "api_uploadDataset online_world demo_file = Inr \<lparr>res_dataset_id = ''d1'',
      res_filename = ''data.csv'', res_shape = (120, 3), res_columns = [''a'', ''b'', ''c'']\<rparr>
   \<and> map msg_text (messages (store (uploadDataset demo_file online_world)))
       = [[CHR 0xE2, CHR 0x9C, CHR 0x85] @ '' Ingested **data.csv** (120 rows). Ready for analysis.'']
   \<and> map_option filename (activeDataset (store (uploadDataset demo_file online_world)))
       = Some ''data.csv''
   \<and> api_uploadDataset offline_world demo_file = Inl (JsError (Some ''Network Error''))
   \<and> store (uploadDataset demo_file offline_world) = store offline_world
   \<and> console (uploadDataset demo_file offline_world) = [''Upload failed'']"
proof -
  have ok: "api_uploadDataset online_world demo_file = Inr \<lparr>res_dataset_id = ''d1'',
      res_filename = ''data.csv'', res_shape = (120, 3), res_columns = [''a'', ''b'', ''c'']\<rparr>"
    by (simp add: online_world_def)
  have ko: "api_uploadDataset offline_world demo_file = Inl (JsError (Some ''Network Error''))"
    by (simp add: offline_world_def)
  have init: "messages (store online_world) = []" "console offline_world = []"
    by (simp_all add: online_world_def offline_world_def initial_state_def)
  from uploadDataset_message_iff_success [of online_world demo_file]
    uploadDataset_message_iff_success [of offline_world demo_file] ok ko init
  show ?thesis by (auto simp add: show_nat_120)
qed

subsection \<open>sendMessage: a query that fails\<close>

text \<open>When the query is rejected with a value other than \<open>null\<close> and \<open>undefined\<close>,
  \<open>sendMessage\<close> leaves the messages it found as they were and appends two messages:
  the user's, and one text message of the assistant that starts with \<open>System Error: \<close>
  and goes on with the error's description. The thinking flag is false afterwards.\<close>

lemma sendMessage_rejected_with_value:
  assumes "api_sendQuery w text0 (sessionId (store w)) (userId (store w))
             (map_option dataset_id (activeDataset (store w))) = Inl (JsError msg)"
  shows "\<exists>u e. messages (store (sendMessage text0 w)) = messages (store w) @ [u, e]
           \<and> sender u = User \<and> msg_type u = Text \<and> msg_text u = text0
           \<and> sender e = AI \<and> msg_type e = Text
           \<and> msg_text e = ''System Error: '' @
                (if truthy msg then the msg else ''Unknown error'')
           \<and> \<not> isThinking (store (sendMessage text0 w))"
  using assms
  by (simp add: sendMessage_eq submit_query_def query_failed_def user_message_def
      error_message_def prim_defs Let_def)


subsection \<open>sendMessage: the user's message\<close>

text \<open>
  C9. For every input (empty or not) and whatever the outcome of the query,
  \<open>sendMessage\<close> appends exactly one message sent by the user, carrying the input as
  its text, and every message appended after it is sent by the assistant; the senders
  of the messages found are unchanged. The user's message comes first in time too: the
  first snapshot that changes the message list is the one that appends it.
\<close>

theorem sendMessage_user_message_first:
  "(\<exists>k. map sender (messages (store (sendMessage text0 w)))
         = map sender (messages (store w)) @ User # replicate k AI
       \<and> msg_text (messages (store (sendMessage text0 w)) ! length (messages (store w))) = text0)
   \<and> (\<exists>pre s rest u. published w (sendMessage text0 w) = pre @ s # rest
       \<and> (\<forall>p\<in>set pre. messages p = messages (store w))
       \<and> messages s = messages (store w) @ [u] \<and> sender u = User \<and> msg_text u = text0)"
proof -
  have t: "msg_text (messages (store (sendMessage text0 w)) ! length (messages (store w))) = text0"
    using sendMessage_nth_user [of text0 w] by simp
  have "\<exists>k. map sender (messages (store (sendMessage text0 w)))
         = map sender (messages (store w)) @ User # replicate k AI"
  proof (cases "api_sendQuery w text0 (sessionId (store w)) (userId (store w))
             (map_option dataset_id (activeDataset (store w)))")
    case (Inl err)
    from sendMessage_failure_messages [OF Inl] obtain tu tsu te where
      m: "messages (store (sendMessage text0 w)) = messages (store w) @
       user_message text0 tu tsu #
       (case err of JsNullish \<Rightarrow> [] | JsError msg \<Rightarrow> [error_message msg te tsu])"
      by blast
    have "map sender (messages (store (sendMessage text0 w)))
           = map sender (messages (store w)) @ User
               # replicate (case err of JsNullish \<Rightarrow> 0 | JsError msg \<Rightarrow> 1) AI"
      by (simp add: m user_message_def error_message_def split: js_error.splits)
    then show ?thesis by blast
  next
    case (Inr resp)
    from sendMessage_success_messages [OF Inr] obtain tu tsu tr tsr tp tsp r where
      m: "messages (store (sendMessage text0 w)) =
       map (complete_plan (show_nat (tp + 2)))
         (messages (store w) @ [user_message text0 tu tsu, reasoning_message resp tr tsr,
            plan_message resp tp tsp])
       @ result_messages (clock w) (localeTime w) r (agent_responses resp)"
      by blast
    have "map sender (messages (store (sendMessage text0 w)))
           = map sender (messages (store w)) @ User
               # replicate (2 + length (agent_responses resp)) AI"
      by (simp add: m user_message_def reasoning_message_def plan_message_def comp_def)
    then show ?thesis by blast
  qed
  with t sendMessage_first_snapshot [of w text0] show ?thesis by blast
qed

theorem sendMessage_user_message_first_witness:
  "(\<exists>k. map sender (messages (store (sendMessage ''hi'' online_world)))
         = map sender (messages (store online_world)) @ User # replicate k AI
       \<and> msg_text (messages (store (sendMessage ''hi'' online_world))
            ! length (messages (store online_world))) = ''hi'')
   \<and> (\<exists>pre s rest u. published online_world (sendMessage ''hi'' online_world) = pre @ s # rest
       \<and> (\<forall>p\<in>set pre. messages p = messages (store online_world))
       \<and> messages s = messages (store online_world) @ [u] \<and> sender u = User
       \<and> msg_text u = ''hi'')"
  using sendMessage_user_message_first [of "''hi''" online_world] .

subsection \<open>sendMessage: a query that succeeds\<close>

text \<open>
  C2, as amended. When the query succeeds with N agent results, \<open>sendMessage\<close> appends
  3 + N messages: the user's, the reasoning, the plan, and one result message for each
  agent result, in the order of the response. A result message has type
  \<open>analysis\<close> (not \<open>agent_result\<close>), the agent's name as its text, the status
  \<open>completed\<close> or \<open>failed\<close> after the success flag, and the agent's data in its
  metadata. At the end the plan message has status \<open>completed\<close> and progress 100.
\<close>

theorem sendMessage_success_results:
  assumes "api_sendQuery w text0 (sessionId (store w)) (userId (store w))
             (map_option dataset_id (activeDataset (store w))) = Inr resp"
  shows "length (messages (store (sendMessage text0 w)))
           = length (messages (store w)) + 3 + length (agent_responses resp)
    \<and> map (\<lambda>m. (sender m, msg_type m, msg_text m, status m, metadata m))
          (drop (length (messages (store w)) + 3) (messages (store (sendMessage text0 w))))
        = map (\<lambda>a. (AI, Analysis, agent a, Some (if success a then Completed else Failed),
            Some \<lparr>md_agents = None, md_progress = None, md_data = data a,
              md_agent = Some (agent a), md_summary = Some ''Click to view detailed report'',
              md_success = Some (success a), md_error = error a, md_displayText = None\<rparr>))
            (agent_responses resp)
    \<and> (\<exists>pid ts. messages (store (sendMessage text0 w)) ! (length (messages (store w)) + 2)
         = \<lparr>msg_id = pid, sender = AI, msg_text = ''Agent Execution Strategy'',
            timestamp = ts, msg_type = Analysis, status = Some Completed,
            metadata = Some (no_metadata\<lparr>md_progress := Some 100,
              md_agents := Some (agents (orchestration_plan resp))\<rparr>)\<rparr>)"
proof -
  from sendMessage_success_messages [OF assms] obtain tu tsu tr tsr tp tsp r where
    m: "messages (store (sendMessage text0 w)) =
     map (complete_plan (show_nat (tp + 2)))
       (messages (store w) @ [user_message text0 tu tsu, reasoning_message resp tr tsr,
          plan_message resp tp tsp])
     @ result_messages (clock w) (localeTime w) r (agent_responses resp)"
    by blast
  have len: "length (messages (store (sendMessage text0 w)))
           = length (messages (store w)) + 3 + length (agent_responses resp)"
    by (simp add: m)
  have res: "drop (length (messages (store w)) + 3) (messages (store (sendMessage text0 w)))
     = result_messages (clock w) (localeTime w) r (agent_responses resp)"
    by (simp add: m)
  have plan: "messages (store (sendMessage text0 w)) ! (length (messages (store w)) + 2)
     = complete_plan (show_nat (tp + 2)) (plan_message resp tp tsp)"
    by (simp add: m nth_append)
  show ?thesis
    unfolding len res plan completed_plan_message result_messages_view by blast
qed

theorem sendMessage_success_results_witness:
  "api_sendQuery online_world ''hi'' (sessionId (store online_world))
      (userId (store online_world)) (map_option dataset_id (activeDataset (store online_world)))
     = Inr demo_response
   \<and> length (messages (store (sendMessage ''hi'' online_world))) = 5
   \<and> map (\<lambda>m. (sender m, msg_type m, msg_text m, status m, metadata m))
        (drop 3 (messages (store (sendMessage ''hi'' online_world))))
      = [(AI, Analysis, ''Harvester'', Some Completed,
          Some \<lparr>md_agents = None, md_progress = None, md_data = Some ''{}'',
            md_agent = Some ''Harvester'', md_summary = Some ''Click to view detailed report'',
            md_success = Some True, md_error = None, md_displayText = None\<rparr>),
         (AI, Analysis, ''Forecaster'', Some Failed,
          Some \<lparr>md_agents = None, md_progress = None, md_data = None,
            md_agent = Some ''Forecaster'', md_summary = Some ''Click to view detailed report'',
            md_success = Some False, md_error = Some ''no data'', md_displayText = None\<rparr>)]
   \<and> (\<exists>pid ts. messages (store (sendMessage ''hi'' online_world)) ! 2
         = \<lparr>msg_id = pid, sender = AI, msg_text = ''Agent Execution Strategy'',
            timestamp = ts, msg_type = Analysis, status = Some Completed,
            metadata = Some (no_metadata\<lparr>md_progress := Some 100,
              md_agents := Some [''Harvester'', ''Forecaster'']\<rparr>)\<rparr>)"
proof -
  have ok: "api_sendQuery online_world ''hi'' (sessionId (store online_world))
      (userId (store online_world)) (map_option dataset_id (activeDataset (store online_world)))
     = Inr demo_response"
    by (simp add: online_world_def)
  have init: "messages (store online_world) = []"
    by (simp add: online_world_def initial_state_def)
  from sendMessage_success_results [OF ok] ok show ?thesis
    by (simp add: init demo_response_def del: add_2_eq_Suc add_2_eq_Suc')
qed

text \<open>The claim as written fails: after a successful query with two agent results, no
  message of the list has the type \<open>agent_result\<close>.\<close>

theorem sendMessage_results_not_agent_result_type:
  "api_sendQuery online_world ''hi'' (sessionId (store online_world))
      (userId (store online_world)) (map_option dataset_id (activeDataset (store online_world)))
     = Inr demo_response
   \<and> length (agent_responses demo_response) = 2
   \<and> filter (\<lambda>m. msg_type m = Agent_result) (messages (store (sendMessage ''hi'' online_world)))
      = []"
proof -
  have ok: "api_sendQuery online_world ''hi'' (sessionId (store online_world))
      (userId (store online_world)) (map_option dataset_id (activeDataset (store online_world)))
     = Inr demo_response"
    by (simp add: online_world_def)
  have init: "messages (store online_world) = []"
    by (simp add: online_world_def initial_state_def)
  from sendMessage_success_messages [OF ok] obtain tu tsu tr tsr tp tsp r where
    m: "messages (store (sendMessage ''hi'' online_world)) =
     map (complete_plan (show_nat (tp + 2)))
       (messages (store online_world) @ [user_message ''hi'' tu tsu,
          reasoning_message demo_response tr tsr, plan_message demo_response tp tsp])
     @ result_messages (clock online_world) (localeTime online_world) r
         (agent_responses demo_response)"
    by blast
  have "filter (\<lambda>m. msg_type m = Agent_result)
      (messages (store (sendMessage ''hi'' online_world))) = []"
    unfolding m init
    by (simp add: user_message_def reasoning_message_def plan_message_def result_message_def
        demo_response_def)
  with ok show ?thesis by (simp add: demo_response_def)
qed

subsection \<open>Blank input\<close>

text \<open>\<open>trim\<close> at work: white space of ASCII and beyond goes from both ends, and stays
  inside.\<close>

lemma trim_examples:
  "trim [] = []" "trim '' '' = []"
  "trim ([CHR 0xC2, CHR 0xA0] @ '' '' @ [CHR 0xE3, CHR 0x80, CHR 0x80, CHR 0x09]) = []"
  "trim ([CHR 0xEF, CHR 0xBB, CHR 0xBF] @ '' a b '' @ [CHR 0xE2, CHR 0x80, CHR 0xA8]) = ''a b''"
  by (simp_all add: trim_def white_space_def starts_with_def)

text \<open>
  C1, as amended. For every input that is empty after trimming, \<open>handleSubmit\<close> of the
  input panel returns before it calls the store: the panel's text, the message list and
  the rest of the world are unchanged. \<open>sendMessage\<close> itself has no such guard: called
  with such an input, it appends the user's message, carrying the input as it is.
\<close>

theorem handleSubmit_guards_blank_input:
  assumes "trim text0 = []"
  shows "handleSubmit run (text0, w) = (text0, w)
    \<and> length (messages (store w)) < length (messages (store (sendMessage text0 w)))
    \<and> sender (messages (store (sendMessage text0 w)) ! length (messages (store w))) = User
    \<and> msg_text (messages (store (sendMessage text0 w)) ! length (messages (store w))) = text0"
  using assms sendMessage_length [of w text0] sendMessage_nth_user [of text0 w]
  by (simp add: handleSubmit_def)

theorem handleSubmit_guards_blank_input_witness:
  "trim ([CHR 0xC2, CHR 0xA0] @ '' '' @ [CHR 0xE3, CHR 0x80, CHR 0x80, CHR 0x09]) = []
    \<and> handleSubmit sendMessage
         ([CHR 0xC2, CHR 0xA0] @ '' '' @ [CHR 0xE3, CHR 0x80, CHR 0x80, CHR 0x09], offline_world)
       = ([CHR 0xC2, CHR 0xA0] @ '' '' @ [CHR 0xE3, CHR 0x80, CHR 0x80, CHR 0x09], offline_world)
    \<and> length (messages (store offline_world))
        < length (messages (store (sendMessage
            ([CHR 0xC2, CHR 0xA0] @ '' '' @ [CHR 0xE3, CHR 0x80, CHR 0x80, CHR 0x09])
            offline_world)))
    \<and> sender (messages (store (sendMessage
            ([CHR 0xC2, CHR 0xA0] @ '' '' @ [CHR 0xE3, CHR 0x80, CHR 0x80, CHR 0x09])
            offline_world))
         ! length (messages (store offline_world))) = User
    \<and> msg_text (messages (store (sendMessage
            ([CHR 0xC2, CHR 0xA0] @ '' '' @ [CHR 0xE3, CHR 0x80, CHR 0x80, CHR 0x09])
            offline_world))
         ! length (messages (store offline_world)))
       = [CHR 0xC2, CHR 0xA0] @ '' '' @ [CHR 0xE3, CHR 0x80, CHR 0x80, CHR 0x09]"
proof -
  have t: "trim ([CHR 0xC2, CHR 0xA0] @ '' '' @ [CHR 0xE3, CHR 0x80, CHR 0x80, CHR 0x09]) = []"
    by (rule trim_examples(3))
  from handleSubmit_guards_blank_input [OF t, of sendMessage offline_world] t
  show ?thesis by blast
qed

text \<open>The claim as written fails: \<open>sendMessage\<close> called with the empty string, or with
  one space, changes the length of the message list.\<close>

theorem sendMessage_blank_input_not_noop:
  "trim [] = [] \<and> trim '' '' = []
   \<and> length (messages (store (sendMessage [] offline_world)))
       \<noteq> length (messages (store offline_world))
   \<and> length (messages (store (sendMessage '' '' offline_world)))
       \<noteq> length (messages (store offline_world))"
  using sendMessage_length [of offline_world "[]"] sendMessage_length [of offline_world "'' ''"]
    trim_examples(1,2)
  by simp

subsection \<open>The session id of the query\<close>

text \<open>
  C4, at a failing input. On the initial state (no session), with a backend that
  creates the session \<open>sess_a\<close>, the session is created before the query, and the store
  holds \<open>sess_a\<close> afterwards; the query is sent with the session id read at line 128,
  which is \<open>null\<close>.
\<close>

theorem sendMessage_query_carries_stale_session_id:
  "sessionId (store online_world) = None
   \<and> calls (sendMessage ''hi'' online_world)
       = [CreateSession ''demo_user_01'', SendQuery ''hi'' None ''demo_user_01'' None]
   \<and> sessionId (store (sendMessage ''hi'' online_world)) = Some ''sess_a''"
  by (simp add: sendMessage_eq submit_query_calls submit_query_sessionId ensure_session_def
      initializeSession_def prim_defs online_world_def initial_state_def)

subsection \<open>Message ids\<close>

text \<open>
  C5, at a failing input. When the query is rejected within the millisecond in which the
  user's message was built, the error message gets the id of the user's message.
\<close>

theorem sendMessage_error_id_repeats_user_id:
  "map msg_id (messages (store (sendMessage ''hi'' offline_world))) = [''1000'', ''1000'']
   \<and> \<not> distinct (map msg_id (messages (store (sendMessage ''hi'' offline_world))))"
proof -
  have ko: "api_sendQuery (ensure_session (sessionId (store offline_world)) offline_world)
      ''hi'' (sessionId (store offline_world))
      (userId (store offline_world)) (map_option dataset_id (activeDataset (store offline_world)))
     = Inl (JsError (Some ''Network Error''))"
    by (simp add: offline_world_def)
  have "map msg_id (messages (store (sendMessage ''hi'' offline_world))) = [''1000'', ''1000'']"
    unfolding sendMessage_eq submit_query_failure_messages [OF ko]
    by (simp add: user_message_def error_message_def offline_world_def initial_state_def
        show_nat_1000)
  then show ?thesis by simp
qed

subsection \<open>The reveal of an agent's result\<close>

text \<open>
  C10. In a successful query, the k-th agent result is revealed by one update of the
  store, published as one snapshot: it appends the result message, whose status is
  \<open>completed\<close> when the agent's success flag is true and \<open>failed\<close> otherwise, and sets
  the agent's entry of the status map to the same value. In the snapshot before, the
  entry is \<open>processing\<close> and the result message is not yet in the list.
\<close>

theorem reveal_sets_message_and_agent_status:
  assumes "api_sendQuery w text0 (sessionId (store w)) (userId (store w))
             (map_option dataset_id (activeDataset (store w))) = Inr resp"
    and "k < length (agent_responses resp)"
  shows "let H = published w (sendMessage text0 w);
             off = (if truthy (sessionId (store w)) then 3 else 4);
             before = H ! (off + 2 * k);
             after = H ! (off + 2 * k + 1);
             a = agent_responses resp ! k;
             st = (if success a then Completed else Failed)
         in length H = off + 2 * length (agent_responses resp) + 1
          \<and> agentStatuses before (agent a) = Some Processing
          \<and> length (messages after) = length (messages before) + 1
          \<and> (\<exists>t ts. last (messages after) = result_message a t ts)
          \<and> status (last (messages after)) = Some st
          \<and> agentStatuses after (agent a) = Some st"
proof -
  from sendMessage_success_published [OF assms(1)] obtain pre sp pid r where
    H: "published w (sendMessage text0 w) = pre @ sp #
       loop_states pid (length (agent_responses resp)) 0 (clock w) (localeTime w) r sp
         (agent_responses resp) @ [store (sendMessage text0 w)]"
    and pre: "length pre = (if truthy (sessionId (store w)) then 2 else 3)"
    by blast
  let ?L = "loop_states pid (length (agent_responses resp)) 0 (clock w) (localeTime w) r sp
         (agent_responses resp)"
  let ?off = "if truthy (sessionId (store w)) then 3 else (4::nat)"
  have off: "?off = length pre + 1" by (simp add: pre)
  have j: "2 * k < length ?L" "2 * k + 1 < length ?L" using assms(2) by simp_all
  have b: "published w (sendMessage text0 w) ! (?off + 2 * k) = ?L ! (2 * k)"
    unfolding off using published_nth_loop(1) [OF H j(1)] .
  have a: "published w (sendMessage text0 w) ! (?off + 2 * k + 1) = ?L ! (2 * k + 1)"
    unfolding off using published_nth_loop(1) [OF H j(2)] by (simp add: add.assoc)
  have l: "length (published w (sendMessage text0 w))
      = ?off + 2 * length (agent_responses resp) + 1"
    unfolding off using published_nth_loop(4) [OF H j(1)] by simp
  from loop_states_statuses [OF assms(2), of pid "length (agent_responses resp)" 0
      "clock w" "localeTime w" r sp]
  show ?thesis
    unfolding Let_def a b l by (auto simp add: result_message_def)
qed

theorem reveal_sets_message_and_agent_status_witness:
  "api_sendQuery online_world ''hi'' (sessionId (store online_world))
      (userId (store online_world)) (map_option dataset_id (activeDataset (store online_world)))
     = Inr demo_response
   \<and> (1::nat) < length (agent_responses demo_response)
   \<and> length (published online_world (sendMessage ''hi'' online_world)) = 9
   \<and> agentStatuses (published online_world (sendMessage ''hi'' online_world) ! 6) ''Forecaster''
       = Some Processing
   \<and> length (messages (published online_world (sendMessage ''hi'' online_world) ! 7))
       = length (messages (published online_world (sendMessage ''hi'' online_world) ! 6)) + 1
   \<and> status (last (messages (published online_world (sendMessage ''hi'' online_world) ! 7)))
       = Some Failed
   \<and> agentStatuses (published online_world (sendMessage ''hi'' online_world) ! 7) ''Forecaster''
       = Some Failed"
proof -
  have ok: "api_sendQuery online_world ''hi'' (sessionId (store online_world))
      (userId (store online_world)) (map_option dataset_id (activeDataset (store online_world)))
     = Inr demo_response"
    by (simp add: online_world_def)
  have k: "(1::nat) < length (agent_responses demo_response)"
    by (simp add: demo_response_def)
  have s: "\<not> truthy (sessionId (store online_world))"
    by (simp add: online_world_def initial_state_def)
  have a: "agent_responses demo_response ! Suc 0
     = \<lparr>agent = ''Forecaster'', success = False, data = None, error = Some ''no data''\<rparr>"
    "length (agent_responses demo_response) = 2"
    by (simp_all add: demo_response_def)
  from reveal_sets_message_and_agent_status [OF ok k] ok k show ?thesis
    by (simp add: Let_def s a)
qed

subsection \<open>The progress of the plan message\<close>

text \<open>
  C3, as amended. In a successful query with N agents, the progress written to the plan
  message with the result of the k-th agent is \<open>Math.round((k / N) * 100)\<close>, computed
  on doubles, for k from 1 to N in this order. The values the plan message shows, from
  the snapshot that appends it to the last snapshot of the query, are non-decreasing.
  The value written with the last result is 100. When N is below 200, every value
  written before the last one is below 100.
\<close>

theorem plan_progress_sequence:
  assumes "api_sendQuery w text0 (sessionId (store w)) (userId (store w))
             (map_option dataset_id (activeDataset (store w))) = Inr resp"
  shows "let N = length (agent_responses resp);
             i = length (messages (store w)) + 2;
             off = (if truthy (sessionId (store w)) then 3 else 4);
             H = published w (sendMessage text0 w)
         in (\<forall>k<N. progress_at i (H ! (off + 2 * k + 1)) = Some (progress_pct (k + 1) N))
          \<and> map (progress_at i) (drop (off - 1) H) = map Some (progress_values N)
          \<and> sorted (progress_values N)
          \<and> (0 < N \<longrightarrow> progress_pct N N = 100)
          \<and> (N < 200 \<longrightarrow> (\<forall>k<N. progress_pct k N < 100))"
proof -
  have off: "(if truthy (sessionId (store w)) then 3 else 4) - 1
     = (if truthy (sessionId (store w)) then 2 else (3::nat))" by simp
  show ?thesis
    unfolding Let_def off
    using sendMessage_progress_values [OF assms] sorted_progress_values
      progress_pct_full progress_pct_below_100
    by blast
qed


theorem plan_progress_sequence_witness:
  "api_sendQuery online_world ''hi'' (sessionId (store online_world))
      (userId (store online_world)) (map_option dataset_id (activeDataset (store online_world)))
     = Inr demo_response
   \<and> progress_at 2 (published online_world (sendMessage ''hi'' online_world) ! 5) = Some 50
   \<and> progress_at 2 (published online_world (sendMessage ''hi'' online_world) ! 7) = Some 100
   \<and> map (progress_at 2) (drop 3 (published online_world (sendMessage ''hi'' online_world)))
       = map Some [0, 0, 50, 50, 100, 100]
   \<and> sorted (progress_values 2)
   \<and> progress_pct 2 2 = 100
   \<and> progress_pct 1 2 < 100"
proof -
  have ok: "api_sendQuery online_world ''hi'' (sessionId (store online_world))
      (userId (store online_world)) (map_option dataset_id (activeDataset (store online_world)))
     = Inr demo_response"
    by (simp add: online_world_def)
  have s: "truthy (sessionId (store online_world)) = False"
    "length (messages (store online_world)) = 0"
    "length (agent_responses demo_response) = 2"
    by (simp_all add: online_world_def initial_state_def demo_response_def)
  have p12: "progress_pct (Suc 0) 2 = 50" using progress_pct_1_2 by simp
  have p22: "progress_pct (Suc (Suc 0)) 2 = 100"
    using progress_pct_full [of 2] by (simp add: numeral_2_eq_2)
  have u: "[0..<2 * 2 + 1] = [0, 1, 2, 3, 4::nat]"
    by (simp add: upt_rec)
  have v: "progress_values 2 = [0, 0, 50, 50, 100, 100]"
    unfolding progress_values_def u
    by (simp add: shown_progress_def p12 progress_pct_full)
  note t = plan_progress_sequence [OF ok, unfolded Let_def s]
  from t have t1: "\<forall>k<2. progress_at (0 + 2)
      (published online_world (sendMessage ''hi'' online_world) ! ((if False then 3 else 4) + 2 * k + 1))
      = Some (progress_pct (k + 1) 2)" by blast
  from t1 [rule_format, of 0] have a: "progress_at 2
      (published online_world (sendMessage ''hi'' online_world) ! 5) = Some 50"
    by (simp add: p12 del: add_2_eq_Suc add_2_eq_Suc')
  from t1 [rule_format, of 1] have b: "progress_at 2
      (published online_world (sendMessage ''hi'' online_world) ! 7) = Some 100"
    by (simp add: p22 del: add_2_eq_Suc add_2_eq_Suc')
  from t have c: "map (progress_at 2) (drop 3 (published online_world (sendMessage ''hi'' online_world)))
       = map Some (progress_values 2)" by (simp del: add_2_eq_Suc add_2_eq_Suc')
  from t have d: "sorted (progress_values 2)" "progress_pct 2 2 = 100" by simp_all
  from t have "\<forall>k<2. progress_pct k 2 < 100" by simp
  then have e: "progress_pct 1 2 < 100" by simp
  from ok a b c [unfolded v] d e show ?thesis by simp
qed

text \<open>The claim as written fails: with 201 agents the progress written with the result
  of the 200th agent (the snapshot at \<open>off + 2 * k + 1\<close> for \<open>off = 4\<close> and \<open>k = 199\<close>) is
  already 100, before the last agent's result is revealed.\<close>

theorem progress_full_before_last_agent:
  "api_sendQuery crowd_world ''hi'' (sessionId (store crowd_world))
      (userId (store crowd_world)) (map_option dataset_id (activeDataset (store crowd_world)))
     = Inr crowd_response
   \<and> length (agent_responses crowd_response) = 201
   \<and> progress_at 2 (published crowd_world (sendMessage ''hi'' crowd_world) ! (4 + 2 * 199 + 1))
       = Some 100"
proof -
  have ok: "api_sendQuery crowd_world ''hi'' (sessionId (store crowd_world))
      (userId (store crowd_world)) (map_option dataset_id (activeDataset (store crowd_world)))
     = Inr crowd_response"
    by (simp add: crowd_world_def)
  have s: "truthy (sessionId (store crowd_world)) = False"
    "length (messages (store crowd_world)) = 0"
    "length (agent_responses crowd_response) = 201"
    by (simp_all add: crowd_world_def online_world_def initial_state_def crowd_response_def)
  have k: "199 < length (agent_responses crowd_response)" by (simp add: s)
  from sendMessage_progress_values(2) [OF ok k, unfolded s]
  have "progress_at (0 + 2) (published crowd_world (sendMessage ''hi'' crowd_world)
          ! ((if False then 3 else 4) + 2 * 199 + 1)) = Some (progress_pct (199 + 1) 201)" .
  then have "progress_at 2 (published crowd_world (sendMessage ''hi'' crowd_world)
          ! (4 + 2 * 199 + 1)) = Some 100"
    by (simp add: progress_pct_200_201 del: add_2_eq_Suc add_2_eq_Suc')
  with ok s(3) show ?thesis by blast
qed

end
